theory Spec2Isabelle
  imports Main "HOL-Library.Multiset"
begin

section \<open>Data model\<close>

text \<open>
  The \<^verbatim>\<open>Task\<close> interface of the application. The field \<^verbatim>\<open>id\<close> is written
  \<open>id_t\<close> (\<open>id\<close> is the identity function of HOL). The optional, nullable references
  \<^verbatim>\<open>image_url\<close> and \<^verbatim>\<open>video_url\<close> are options: \<open>None\<close> is \<^verbatim>\<open>null\<close>.

  The source declares \<^verbatim>\<open>id: number\<close>, a double, which holds an integer exactly only in
  the safe range (\<open>safe_integer\<close> below); beyond it the number the view receives is the
  row's key rounded. The model keeps the key as an integer and does not round: what is
  proved about the ids the view holds is stated for keys in the safe range only.
\<close>

record Task =
  id_t :: int
  title :: string
  description :: string
  image_url :: "string option"
  video_url :: "string option"

text \<open>A browser \<^verbatim>\<open>File\<close>: its name and its bytes.\<close>

record File =
  name :: string
  bytes :: "nat list"

text \<open>The object held by the \<^verbatim>\<open>newTask\<close> state: \<^verbatim>\<open>{ title, description }\<close>.\<close>

record NewTask =
  title_n :: string
  description_n :: string

text \<open>
  The React state of \<^verbatim>\<open>App\<close>: one field for each \<^verbatim>\<open>useState\<close>. The state setters
  become record updates.
\<close>

record App =
  tasks :: "Task list"
  newTask :: NewTask
  newDescription :: string
  taskImage :: "File option"
  taskVideo :: "File option"

section \<open>The remote service\<close>

text \<open>
  The application talks to a hosted service through the client object \<^verbatim>\<open>supabase\<close>.
  What the handlers of the application send is data of the model: a request carries the
  table or bucket, the column names, the direction, the patch and the flags that the
  source writes at the call. The service is not part of the repository; it is modelled
  by the contract of the calls the source makes (a table of rows with a key assigned by
  the store, an object store keyed by bucket and path), and it interprets a request by
  the parameters the request carries.
\<close>

text \<open>The object literal handed to \<^verbatim>\<open>insert\<close>: the four columns the source fills in.\<close>

record NewRow =
  title_r :: string
  description_r :: string
  image_url_r :: "string option"
  video_url_r :: "string option"

text \<open>
  The object literal handed to \<^verbatim>\<open>update\<close>: a partial row. A column the literal does
  not mention is \<open>None\<close> and is left as it is.
\<close>

record Patch =
  title_p :: "string option"
  description_p :: "string option"
  image_url_p :: "string option option"
  video_url_p :: "string option option"

text \<open>A value of a column, as a filter or a sort key sees it.\<close>

datatype val = Null | Num int | Text string

datatype request =
    StorageUpload string string File bool
  | Insert string "NewRow list"
  | SelectOrder string string string bool
  | UpdateEq string Patch string val
  | DeleteEq string string val

text \<open>
  How a call can go wrong for reasons outside the program (transport, permissions,
  constraints of the store): the call returns an object whose \<^verbatim>\<open>error\<close> field is set,
  or it throws.
\<close>

datatype fault = Rejects string | Throws string

datatype 'a reply = Threw string | Error string | Data 'a

datatype console_entry = ConsoleLog string | ConsoleError string

text \<open>
  Everything outside the React state. \<open>table\<close> holds the rows of the table
  \<^verbatim>\<open>tasks\<close> and \<open>serial\<close> the next key the store assigns; \<open>objects\<close> is the object
  store, keyed by bucket and path; \<open>publicUrlOf\<close> is the location the store derives
  for an object; \<open>clock\<close> is what \<^verbatim>\<open>Date.now()\<close> reads. \<open>script\<close> is the
  environment's part in the calls to come: for each call, in order, the time it takes and
  the fault that hits it, if any (an exhausted script means no delay and no fault).
  \<open>trace\<close> lists the requests issued and \<open>console\<close> the lines written to the
  console, both oldest first.
\<close>

record World =
  table :: "Task list"
  serial :: int
  objects :: "string \<times> string \<Rightarrow> File option"
  publicUrlOf :: "string \<Rightarrow> string \<Rightarrow> string option"
  clock :: nat
  script :: "(nat \<times> fault option) list"
  trace :: "request list"
  console :: "console_entry list"

definition console_log :: "string \<Rightarrow> World \<Rightarrow> World" where
  "console_log msg w = w\<lparr>console := console w @ [ConsoleLog msg]\<rparr>"

definition console_error :: "string \<Rightarrow> World \<Rightarrow> World" where
  "console_error msg w = w\<lparr>console := console w @ [ConsoleError msg]\<rparr>"

text \<open>
  Issuing a request: it is recorded, the next entry of the script is consumed, the clock
  advances by the entry's delay, and the entry's fault (if any) is handed back.
\<close>

definition issue :: "request \<Rightarrow> World \<Rightarrow> fault option \<times> World" where
  "issue rq w =
     (case script w of
        [] \<Rightarrow> (None, w\<lparr>trace := trace w @ [rq]\<rparr>)
      | (dt, flt) # rest \<Rightarrow>
          (flt, w\<lparr>clock := clock w + dt, script := rest, trace := trace w @ [rq]\<rparr>))"

subsection \<open>Columns, filters and ordering\<close>

definition columns :: "string list" where
  "columns = [''id'', ''title'', ''description'', ''image_url'', ''video_url'']"

definition opt_val :: "string option \<Rightarrow> val" where
  "opt_val s = (case s of None \<Rightarrow> Null | Some t \<Rightarrow> Text t)"

definition col_val :: "string \<Rightarrow> Task \<Rightarrow> val" where
  "col_val c r =
     (if c = ''id'' then Num (id_t r)
      else if c = ''title'' then Text (title r)
      else if c = ''description'' then Text (description r)
      else if c = ''image_url'' then opt_val (image_url r)
      else if c = ''video_url'' then opt_val (video_url r)
      else Null)"

text \<open>Text compares by code unit, a prefix before its extensions.\<close>

fun text_le :: "string \<Rightarrow> string \<Rightarrow> bool" where
  "text_le [] _ = True"
| "text_le (_ # _) [] = False"
| "text_le (a # as) (b # bs) =
     (if a = b then text_le as bs else (of_char a :: nat) < of_char b)"

text \<open>The order of a column's values; a missing value sorts after every present one.\<close>

fun val_le :: "val \<Rightarrow> val \<Rightarrow> bool" where
  "val_le _ Null = True"
| "val_le Null _ = False"
| "val_le (Num a) (Num b) = (a \<le> b)"
| "val_le (Text a) (Text b) = text_le a b"
| "val_le (Num _) (Text _) = True"
| "val_le (Text _) (Num _) = False"

fun place :: "('a \<Rightarrow> 'a \<Rightarrow> bool) \<Rightarrow> 'a \<Rightarrow> 'a list \<Rightarrow> 'a list" where
  "place le x [] = [x]"
| "place le x (y # ys) = (if le x y then x # y # ys else y # place le x ys)"

fun arrange :: "('a \<Rightarrow> 'a \<Rightarrow> bool) \<Rightarrow> 'a list \<Rightarrow> 'a list" where
  "arrange le [] = []"
| "arrange le (x # xs) = place le x (arrange le xs)"

text \<open>
  The modifier \<^verbatim>\<open>.order(column, { ascending })\<close>: the rows arranged by the named
  column, smallest first when \<open>ascending\<close> and largest first otherwise.
\<close>

definition order_rows :: "string \<Rightarrow> bool \<Rightarrow> Task list \<Rightarrow> Task list" where
  "order_rows c ascending rs =
     arrange (\<lambda>a b. if ascending then val_le (col_val c a) (col_val c b)
                     else val_le (col_val c b) (col_val c a)) rs"

definition apply_patch :: "Patch \<Rightarrow> Task \<Rightarrow> Task" where
  "apply_patch p r =
     r\<lparr>title := (case title_p p of None \<Rightarrow> title r | Some t \<Rightarrow> t),
       description := (case description_p p of None \<Rightarrow> description r | Some d \<Rightarrow> d),
       image_url := (case image_url_p p of None \<Rightarrow> image_url r | Some u \<Rightarrow> u),
       video_url := (case video_url_p p of None \<Rightarrow> video_url r | Some u \<Rightarrow> u)\<rparr>"

text \<open>The rows an insert appends: each gets the next key of the store.\<close>

fun new_rows :: "int \<Rightarrow> NewRow list \<Rightarrow> Task list" where
  "new_rows n [] = []"
| "new_rows n (x # xs) =
     \<lparr>id_t = n, title = title_r x, description = description_r x,
      image_url = image_url_r x, video_url = video_url_r x\<rparr> # new_rows (n + 1) xs"

subsection \<open>The calls of the client\<close>

text \<open>
  \<^verbatim>\<open>supabase.storage.from(bucket).upload(path, file, { upsert })\<close>. An occupied path is
  an error unless \<open>upsert\<close> is set, in which case the object is replaced.
\<close>

definition storage_upload ::
  "string \<Rightarrow> string \<Rightarrow> File \<Rightarrow> bool \<Rightarrow> World \<Rightarrow> unit reply \<times> World" where
  "storage_upload bucket path file upsert w =
     (case issue (StorageUpload bucket path file upsert) w of
        (Some (Throws e), w1) \<Rightarrow> (Threw e, w1)
      | (Some (Rejects e), w1) \<Rightarrow> (Error e, w1)
      | (None, w1) \<Rightarrow>
          if objects w1 (bucket, path) \<noteq> None \<and> \<not> upsert
          then (Error ''The resource already exists'', w1)
          else (Data (), w1\<lparr>objects := (objects w1)((bucket, path) \<mapsto> file)\<rparr>))"

text \<open>\<^verbatim>\<open>supabase.storage.from(bucket).getPublicUrl(path)\<close>: no request is made.\<close>

definition storage_getPublicUrl :: "string \<Rightarrow> string \<Rightarrow> World \<Rightarrow> string option" where
  "storage_getPublicUrl bucket path w = publicUrlOf w bucket path"

text \<open>\<^verbatim>\<open>supabase.from(tbl).insert(rows)\<close>.\<close>

definition db_insert :: "string \<Rightarrow> NewRow list \<Rightarrow> World \<Rightarrow> unit reply \<times> World" where
  "db_insert tbl rows w =
     (case issue (Insert tbl rows) w of
        (Some (Throws e), w1) \<Rightarrow> (Threw e, w1)
      | (Some (Rejects e), w1) \<Rightarrow> (Error e, w1)
      | (None, w1) \<Rightarrow>
          if tbl \<noteq> ''tasks'' then (Error ''relation does not exist'', w1)
          else (Data (), w1\<lparr>table := table w1 @ new_rows (serial w1) rows,
                             serial := serial w1 + int (length rows)\<rparr>))"

text \<open>\<^verbatim>\<open>supabase.from(tbl).select(cols).order(c, { ascending })\<close>.\<close>

definition db_select_order ::
  "string \<Rightarrow> string \<Rightarrow> string \<Rightarrow> bool \<Rightarrow> World \<Rightarrow> Task list reply \<times> World" where
  "db_select_order tbl cols c ascending w =
     (case issue (SelectOrder tbl cols c ascending) w of
        (Some (Throws e), w1) \<Rightarrow> (Threw e, w1)
      | (Some (Rejects e), w1) \<Rightarrow> (Error e, w1)
      | (None, w1) \<Rightarrow>
          if tbl \<noteq> ''tasks'' then (Error ''relation does not exist'', w1)
          else if cols \<noteq> ''*'' \<or> c \<notin> set columns then (Error ''column does not exist'', w1)
          else (Data (order_rows c ascending (table w1)), w1))"

text \<open>\<^verbatim>\<open>supabase.from(tbl).update(patch).eq(c, v)\<close>: every row whose column \<open>c\<close> equals
  \<open>v\<close> is patched; a filter that matches no row is not an error.\<close>

definition db_update_eq ::
  "string \<Rightarrow> Patch \<Rightarrow> string \<Rightarrow> val \<Rightarrow> World \<Rightarrow> unit reply \<times> World" where
  "db_update_eq tbl p c v w =
     (case issue (UpdateEq tbl p c v) w of
        (Some (Throws e), w1) \<Rightarrow> (Threw e, w1)
      | (Some (Rejects e), w1) \<Rightarrow> (Error e, w1)
      | (None, w1) \<Rightarrow>
          if tbl \<noteq> ''tasks'' then (Error ''relation does not exist'', w1)
          else if c \<notin> set columns then (Error ''column does not exist'', w1)
          else (Data (), w1\<lparr>table :=
                  map (\<lambda>r. if col_val c r = v then apply_patch p r else r) (table w1)\<rparr>))"

text \<open>\<^verbatim>\<open>supabase.from(tbl).delete().eq(c, v)\<close>.\<close>

definition db_delete_eq :: "string \<Rightarrow> string \<Rightarrow> val \<Rightarrow> World \<Rightarrow> unit reply \<times> World" where
  "db_delete_eq tbl c v w =
     (case issue (DeleteEq tbl c v) w of
        (Some (Throws e), w1) \<Rightarrow> (Threw e, w1)
      | (Some (Rejects e), w1) \<Rightarrow> (Error e, w1)
      | (None, w1) \<Rightarrow>
          if tbl \<noteq> ''tasks'' then (Error ''relation does not exist'', w1)
          else if c \<notin> set columns then (Error ''column does not exist'', w1)
          else (Data (), w1\<lparr>table := filter (\<lambda>r. col_val c r \<noteq> v) (table w1)\<rparr>))"

section \<open>The application\<close>

text \<open>
  The handlers of \<^verbatim>\<open>App\<close>, each a function from the React state and the world to
  the state and world it leaves. An \<^verbatim>\<open>await\<close> is the call's reply; a call that throws
  where the source has no handler ends the handler there, with the state as it is. The
  call \<^verbatim>\<open>fetchTasks()\<close> that ends a successful write is run in place. The texts
  written to the console are the source's, without their pictographs.
\<close>

text \<open>A number inside a template literal: its decimal digits.\<close>

fun digit :: "nat \<Rightarrow> char" where
  "digit n = char_of (48 + n)"

function toString :: "nat \<Rightarrow> string" where
  "toString n = (if n < 10 then [digit n] else toString (n div 10) @ [digit (n mod 10)])"
  by pat_completeness auto
termination
  by (relation "measure (\<lambda>n. n)") auto

text \<open>
  \<^verbatim>\<open>uploadFile(file, folder)\<close>: the path is \<^verbatim>\<open>`${folder}/${Date.now()}-${file.name}`\<close>,
  the bucket is \<^verbatim>\<open>"notes-images"\<close> for the upload and for the public location, and the
  upload is an upsert. Every failure, a thrown one included, ends in \<^verbatim>\<open>null\<close>.
\<close>

definition uploadFile :: "File \<Rightarrow> string \<Rightarrow> World \<Rightarrow> string option \<times> World" where
  "uploadFile file folder w =
     (let filePath = folder @ ''/'' @ toString (clock w) @ ''-'' @ name file in
      case storage_upload ''notes-images'' filePath file True w of
        (Threw e, w1) \<Rightarrow> (None, console_error (''Unexpected upload error: '' @ e) w1)
      | (Error msg, w1) \<Rightarrow> (None, console_error (''Upload error: '' @ msg) w1)
      | (Data _, w1) \<Rightarrow>
          (case storage_getPublicUrl ''notes-images'' filePath w1 of
             None \<Rightarrow> (None, console_error ''No public URL returned'' w1)
           | Some publicUrl \<Rightarrow>
               if publicUrl = [] then (None, console_error ''No public URL returned'' w1)
               else (Some publicUrl, console_log (''Uploaded file URL: '' @ publicUrl) w1)))"

text \<open>
  \<^verbatim>\<open>handleImage\<close> and \<^verbatim>\<open>handleVideo\<close>: the argument is \<^verbatim>\<open>e.target.files\<close>, which
  may be \<^verbatim>\<open>null\<close>.
\<close>

definition handleImage :: "File list option \<Rightarrow> App \<Rightarrow> App" where
  "handleImage files app =
     (case files of
        Some (f # _) \<Rightarrow> app\<lparr>taskImage := Some f\<rparr>
      | _ \<Rightarrow> app)"

definition handleVideo :: "File list option \<Rightarrow> App \<Rightarrow> App" where
  "handleVideo files app =
     (case files of
        Some (f # _) \<Rightarrow> app\<lparr>taskVideo := Some f\<rparr>
      | _ \<Rightarrow> app)"

text \<open>\<^verbatim>\<open>fetchTasks\<close>: all rows of \<^verbatim>\<open>tasks\<close>, ordered by \<^verbatim>\<open>id\<close>, not ascending.\<close>

definition fetchTasks :: "App \<times> World \<Rightarrow> App \<times> World" where
  "fetchTasks s =
     (case s of (app, w) \<Rightarrow>
        (case db_select_order ''tasks'' ''*'' ''id'' False w of
           (Threw e, w1) \<Rightarrow> (app, w1)
         | (Error msg, w1) \<Rightarrow> (app, console_error (''Read error: '' @ msg) w1)
         | (Data rows, w1) \<Rightarrow> (app\<lparr>tasks := rows\<rparr>, w1)))"

text \<open>\<^verbatim>\<open>createTask\<close>, the submit handler of the form.\<close>

definition createTask :: "App \<times> World \<Rightarrow> App \<times> World" where
  "createTask s =
     (case s of (app, w) \<Rightarrow>
        (case (case taskImage app of None \<Rightarrow> (None, w)
                                   | Some f \<Rightarrow> uploadFile f ''images'' w) of
           (imageUrl, w1) \<Rightarrow>
        (case (case taskVideo app of None \<Rightarrow> (None, w1)
                                   | Some f \<Rightarrow> uploadFile f ''videos'' w1) of
           (videoUrl, w2) \<Rightarrow>
        (case db_insert ''tasks''
                [\<lparr>title_r = title_n (newTask app),
                  description_r = description_n (newTask app),
                  image_url_r = imageUrl, video_url_r = videoUrl\<rparr>] w2 of
           (Threw e, w3) \<Rightarrow> (app, w3)
         | (Error msg, w3) \<Rightarrow> (app, console_error (''Insert error: '' @ msg) w3)
         | (Data _, w3) \<Rightarrow>
             fetchTasks
               (app\<lparr>newTask := \<lparr>title_n = [], description_n = []\<rparr>,
                    taskImage := None, taskVideo := None\<rparr>,
                console_log ''Task added successfully!'' w3)))))"

text \<open>\<^verbatim>\<open>updateTask(id)\<close>: the patch is \<^verbatim>\<open>{ description: newDescription }\<close>.\<close>

definition updateTask :: "int \<Rightarrow> App \<times> World \<Rightarrow> App \<times> World" where
  "updateTask i s =
     (case s of (app, w) \<Rightarrow>
        (case db_update_eq ''tasks''
                \<lparr>title_p = None, description_p = Some (newDescription app),
                 image_url_p = None, video_url_p = None\<rparr> ''id'' (Num i) w of
           (Threw e, w1) \<Rightarrow> (app, w1)
         | (Error msg, w1) \<Rightarrow> (app, console_error (''Update error: '' @ msg) w1)
         | (Data _, w1) \<Rightarrow>
             fetchTasks (app\<lparr>newDescription := []\<rparr>, console_log ''Task updated'' w1)))"

text \<open>\<^verbatim>\<open>deleteTask(id)\<close>; \<open>confirmed\<close> is the answer to \<^verbatim>\<open>window.confirm\<close>.\<close>

definition deleteTask :: "bool \<Rightarrow> int \<Rightarrow> App \<times> World \<Rightarrow> App \<times> World" where
  "deleteTask confirmed i s =
     (case s of (app, w) \<Rightarrow>
        if \<not> confirmed then (app, w)
        else
          (case db_delete_eq ''tasks'' ''id'' (Num i) w of
             (Threw e, w1) \<Rightarrow> (app, w1)
           | (Error msg, w1) \<Rightarrow> (app, console_error (''Delete error: '' @ msg) w1)
           | (Data _, w1) \<Rightarrow> fetchTasks (app, console_log ''Task deleted'' w1)))"

text \<open>
  The form. Its two text controls show \<^verbatim>\<open>newTask.title\<close> and
  \<^verbatim>\<open>newTask.description\<close>; its two file controls keep their own selection. All four
  are \<^verbatim>\<open>required\<close>: the browser hands a submission to \<^verbatim>\<open>onSubmit\<close>, which is
  \<^verbatim>\<open>createTask\<close>, only when none of them is empty.
\<close>

record Form =
  image_input :: "File list"
  video_input :: "File list"

definition checkValidity :: "Form \<Rightarrow> App \<Rightarrow> bool" where
  "checkValidity frm app \<longleftrightarrow>
     title_n (newTask app) \<noteq> [] \<and> description_n (newTask app) \<noteq> [] \<and>
     image_input frm \<noteq> [] \<and> video_input frm \<noteq> []"

definition form_submit :: "Form \<Rightarrow> App \<times> World \<Rightarrow> App \<times> World" where
  "form_submit frm s =
     (case s of (app, w) \<Rightarrow> if checkValidity frm app then createTask (app, w) else (app, w))"

text \<open>What a handler added to the console and to the trace.\<close>

definition logged :: "World \<Rightarrow> World \<Rightarrow> console_entry list" where
  "logged w w' = drop (length (console w)) (console w')"

definition issued :: "World \<Rightarrow> World \<Rightarrow> request list" where
  "issued w w' = drop (length (trace w)) (trace w')"

section \<open>Notions the properties are stated with\<close>

text \<open>A reply that carries no data: the call returned an error or threw.\<close>

definition failed :: "'a reply \<Rightarrow> bool" where
  "failed r = (case r of Data _ \<Rightarrow> False | _ \<Rightarrow> True)"

text \<open>The fault the environment holds for the next call.\<close>

definition next_fault :: "World \<Rightarrow> fault option" where
  "next_fault w = (case script w of [] \<Rightarrow> None | (dt, flt) # rest \<Rightarrow> flt)"

text \<open>
  The keys of the store: no two rows of the table share an \<^verbatim>\<open>id\<close>, and every
  \<^verbatim>\<open>id\<close> in the table or in the local view is one the store has already handed out.
\<close>

definition keys_ok :: "App \<times> World \<Rightarrow> bool" where
  "keys_ok s =
     (case s of (app, w) \<Rightarrow>
        distinct (map id_t (table w)) \<and>
        list_all (\<lambda>r. id_t r < serial w) (table w) \<and>
        list_all (\<lambda>t. id_t t < serial w) (tasks app))"

text \<open>
  The integers a JavaScript number holds exactly and apart from their neighbours
  (\<^verbatim>\<open>Number.isSafeInteger\<close>): those of magnitude at most \<open>2\<^sup>5\<^sup>3 - 1\<close>.
\<close>

definition safe_integer :: "int \<Rightarrow> bool" where
  "safe_integer i \<longleftrightarrow> - (2 ^ 53 - 1) \<le> i \<and> i \<le> 2 ^ 53 - 1"

definition safe_ids :: "Task list \<Rightarrow> bool" where
  "safe_ids rs = list_all (\<lambda>r. safe_integer (id_t r)) rs"

text \<open>The request \<^verbatim>\<open>fetchTasks\<close> makes, and the one \<^verbatim>\<open>updateTask\<close> makes.\<close>

definition fetch_request :: request where
  "fetch_request = SelectOrder ''tasks'' ''*'' ''id'' False"

definition update_patch :: "string \<Rightarrow> Patch" where
  "update_patch d =
     \<lparr>title_p = None, description_p = Some d, image_url_p = None, video_url_p = None\<rparr>"

definition update_request :: "string \<Rightarrow> int \<Rightarrow> request" where
  "update_request d i = UpdateEq ''tasks'' (update_patch d) ''id'' (Num i)"

text \<open>The path \<^verbatim>\<open>uploadFile\<close> builds, and the reference it resolves for that path.\<close>

definition upload_path :: "string \<Rightarrow> File \<Rightarrow> World \<Rightarrow> string" where
  "upload_path folder file w = folder @ ''/'' @ toString (clock w) @ ''-'' @ name file"

definition resolved :: "string option \<Rightarrow> string option" where
  "resolved u = (case u of None \<Rightarrow> None | Some t \<Rightarrow> if t = [] then None else Some t)"

text \<open>
  The two steps of \<^verbatim>\<open>createTask\<close> that come before its insert, and the row it hands
  to the insert.
\<close>

definition image_step :: "App \<Rightarrow> World \<Rightarrow> string option \<times> World" where
  "image_step app w =
     (case taskImage app of None \<Rightarrow> (None, w) | Some f \<Rightarrow> uploadFile f ''images'' w)"

definition video_step :: "App \<Rightarrow> World \<Rightarrow> string option \<times> World" where
  "video_step app w =
     (case taskVideo app of None \<Rightarrow> (None, w) | Some f \<Rightarrow> uploadFile f ''videos'' w)"

definition new_row :: "App \<Rightarrow> string option \<Rightarrow> string option \<Rightarrow> NewRow" where
  "new_row app imageUrl videoUrl =
     \<lparr>title_r = title_n (newTask app), description_r = description_n (newTask app),
      image_url_r = imageUrl, video_url_r = videoUrl\<rparr>"

text \<open>
  What the success branch of \<^verbatim>\<open>createTask\<close> makes of the React state, and the row the
  store makes of the row handed to the insert.
\<close>

definition cleared :: "App \<Rightarrow> App" where
  "cleared app = app\<lparr>newTask := \<lparr>title_n = [], description_n = []\<rparr>,
                      taskImage := None, taskVideo := None\<rparr>"

definition created :: "App \<Rightarrow> string option \<Rightarrow> string option \<Rightarrow> World \<Rightarrow> Task" where
  "created app imageUrl videoUrl w =
     \<lparr>id_t = serial w, title = title_n (newTask app), description = description_n (newTask app),
      image_url = imageUrl, video_url = videoUrl\<rparr>"

text \<open>The description of the rows with the given id set, every other field as it was.\<close>

definition redescribed :: "int \<Rightarrow> string \<Rightarrow> Task list \<Rightarrow> Task list" where
  "redescribed i d rs = map (\<lambda>r. if id_t r = i then r\<lparr>description := d\<rparr> else r) rs"

subsection \<open>Sample states\<close>

definition sample_rows :: "Task list" where
  "sample_rows =
     [\<lparr>id_t = 1, title = ''Buy milk'', description = ''2%'',
       image_url = None, video_url = None\<rparr>,
      \<lparr>id_t = 3, title = ''Call home'', description = ''tonight'',
       image_url = Some ''https://cdn.example/notes-images/images/7-cat.png'',
       video_url = None\<rparr>,
      \<lparr>id_t = 2, title = ''Pay rent'', description = ''by Friday'',
       image_url = None, video_url = None\<rparr>]"

definition sample_url :: "string \<Rightarrow> string \<Rightarrow> string option" where
  "sample_url bucket path = Some (''https://cdn.example/'' @ bucket @ ''/'' @ path)"

definition sample_world :: World where
  "sample_world =
     \<lparr>table = sample_rows, serial = 4, objects = Map.empty, publicUrlOf = sample_url,
      clock = 1712, script = [], trace = [], console = []\<rparr>"

definition sample_photo :: File where
  "sample_photo = \<lparr>name = ''cat.png'', bytes = [137, 80, 78, 71]\<rparr>"

definition sample_clip :: File where
  "sample_clip = \<lparr>name = ''walk.mp4'', bytes = [0, 0, 0, 24]\<rparr>"

definition sample_app :: App where
  "sample_app =
     \<lparr>tasks = [], newTask = \<lparr>title_n = ''Water plants'', description_n = ''daily''\<rparr>,
      newDescription = ''done'', taskImage = None, taskVideo = None\<rparr>"


definition attached_app :: App where
  "attached_app = sample_app\<lparr>taskImage := Some sample_photo, taskVideo := Some sample_clip\<rparr>"

definition shrunk_world :: World where
  "shrunk_world = sample_world\<lparr>serial := 6\<rparr>"

definition occupied_world :: World where
  "occupied_world =
     sample_world\<lparr>objects := [(''notes-images'', ''images/1712-cat.png'') \<mapsto> sample_clip]\<rparr>"

definition flaky_world :: World where
  "flaky_world = sample_world\<lparr>script := [(250, Some (Rejects ''Payload too large''))]\<rparr>"

definition photo_app :: App where
  "photo_app = sample_app\<lparr>taskImage := Some sample_photo\<rparr>"

definition blank_app :: App where
  "blank_app = attached_app\<lparr>newTask := \<lparr>title_n = [], description_n = ''daily''\<rparr>\<rparr>"

definition full_form :: Form where
  "full_form = \<lparr>image_input = [sample_photo], video_input = [sample_clip]\<rparr>"

definition loaded_app :: App where
  "loaded_app = sample_app\<lparr>tasks := order_rows ''id'' False sample_rows\<rparr>"

definition offline_world :: World where
  "offline_world = shrunk_world\<lparr>script := [(40, Some (Rejects ''Failed to fetch''))]\<rparr>"

section \<open>The remote calls\<close>

lemma issue_fst: "fst (issue rq w) = next_fault w"
  by (simp add: issue_def next_fault_def split: list.splits prod.splits)

lemma issue_keeps:
  "table (snd (issue rq w)) = table w"
  "serial (snd (issue rq w)) = serial w"
  "objects (snd (issue rq w)) = objects w"
  "publicUrlOf (snd (issue rq w)) = publicUrlOf w"
  "console (snd (issue rq w)) = console w"
  "trace (snd (issue rq w)) = trace w @ [rq]"
  by (simp_all add: issue_def split: list.splits prod.splits)

lemma issue_script: "script (snd (issue rq w)) = tl (script w)"
  by (simp add: issue_def split: list.splits prod.splits)

lemma select_world:
  "snd (db_select_order tbl cols c asc w) = snd (issue (SelectOrder tbl cols c asc) w)"
  by (simp add: db_select_order_def split: prod.splits option.splits fault.splits)

lemma select_reply:
  "fst (db_select_order ''tasks'' ''*'' ''id'' False w) =
     (case next_fault w of
        None \<Rightarrow> Data (order_rows ''id'' False (table w))
      | Some (Rejects e) \<Rightarrow> Error e
      | Some (Throws e) \<Rightarrow> Threw e)"
  using issue_fst [of "SelectOrder ''tasks'' ''*'' ''id'' False" w]
        issue_keeps(1) [of "SelectOrder ''tasks'' ''*'' ''id'' False" w]
  by (auto simp: db_select_order_def columns_def split: prod.splits option.splits fault.splits)

lemma failed_select:
  "failed (fst (db_select_order ''tasks'' ''*'' ''id'' False w)) \<longleftrightarrow> next_fault w \<noteq> None"
  by (simp add: select_reply failed_def split: option.splits fault.splits)

subsection \<open>Ordering by \<^verbatim>\<open>id\<close>, largest first\<close>

lemma order_rows_id_desc:
  "order_rows ''id'' False rs = arrange (\<lambda>a b. id_t b \<le> id_t a) rs"
  by (simp add: order_rows_def col_val_def)

lemma mset_place: "mset (place le x xs) = add_mset x (mset xs)"
  by (induction xs) auto

lemma mset_arrange: "mset (arrange le xs) = mset xs"
  by (induction xs) (auto simp: mset_place)

lemma set_place: "set (place le x xs) = insert x (set xs)"
  by (induction xs) auto

lemma set_arrange: "set (arrange le xs) = set xs"
  by (induction xs) (auto simp: set_place)

lemma desc_place:
  "sorted_wrt (\<lambda>a b. id_t b \<le> id_t a) xs \<Longrightarrow>
   sorted_wrt (\<lambda>a b. id_t b \<le> id_t a) (place (\<lambda>a b. id_t b \<le> id_t a) x xs)"
  by (induction xs) (auto simp: set_place)

lemma desc_arrange:
  "sorted_wrt (\<lambda>a b. id_t b \<le> id_t a) (arrange (\<lambda>a b. id_t b \<le> id_t a) xs)"
  by (induction xs) (auto simp: desc_place)

lemma distinct_arrange: "distinct (map id_t (arrange le xs)) = distinct (map id_t xs)"
proof -
  have "image_mset id_t (mset (arrange le xs)) = image_mset id_t (mset xs)"
    by (simp only: mset_arrange)
  then have "mset (map id_t (arrange le xs)) = mset (map id_t xs)"
    by simp
  then show ?thesis by (rule mset_eq_imp_distinct_iff)
qed

lemma strict_desc:
  assumes "sorted_wrt (\<lambda>a b. id_t b \<le> id_t a) xs" and "distinct (map id_t xs)"
  shows "sorted_wrt (\<lambda>a b. id_t b < id_t a) xs"
  using assms
proof (induction xs)
  case Nil
  then show ?case by simp
next
  case (Cons a xs)
  have "id_t x < id_t a" if "x \<in> set xs" for x
  proof -
    have "id_t x \<le> id_t a" using Cons.prems(1) that by simp
    moreover have "id_t a \<notin> id_t ` set xs" using Cons.prems(2) by simp
    then have "id_t x \<noteq> id_t a" using that by (metis imageI)
    ultimately show ?thesis by simp
  qed
  then show ?case using Cons by simp
qed

lemma order_rows_strict:
  assumes "distinct (map id_t rs)"
  shows "sorted_wrt (\<lambda>a b. id_t b < id_t a) (order_rows ''id'' False rs)"
  unfolding order_rows_id_desc
  by (rule strict_desc [OF desc_arrange]) (simp add: distinct_arrange assms)

lemma order_rows_adjacent:
  assumes "distinct (map id_t rs)" and "Suc i < length (order_rows ''id'' False rs)"
  shows "id_t (order_rows ''id'' False rs ! Suc i) < id_t (order_rows ''id'' False rs ! i)"
  using sorted_wrt_nth_less [OF order_rows_strict [OF assms(1)], of i "Suc i"] assms(2)
  by simp

lemma order_sample_rows:
  "order_rows ''id'' False sample_rows =
     [sample_rows ! 1, sample_rows ! 2, sample_rows ! 0]"
  by (simp add: order_rows_id_desc sample_rows_def)

section \<open>Reading: \<^verbatim>\<open>fetchTasks\<close>\<close>

lemma fetchTasks_world:
  "snd (fetchTasks (app, w)) =
     (case fst (db_select_order ''tasks'' ''*'' ''id'' False w) of
        Error msg \<Rightarrow> console_error (''Read error: '' @ msg) (snd (issue fetch_request w))
      | _ \<Rightarrow> snd (issue fetch_request w))"
  using select_world [of "''tasks''" "''*''" "''id''" False w]
  by (auto simp: fetchTasks_def fetch_request_def split: prod.splits reply.splits)

lemma fetchTasks_app:
  "fst (fetchTasks (app, w)) =
     (case fst (db_select_order ''tasks'' ''*'' ''id'' False w) of
        Data rows \<Rightarrow> app\<lparr>tasks := rows\<rparr>
      | _ \<Rightarrow> app)"
  by (auto simp: fetchTasks_def split: prod.splits reply.splits)

lemma fetchTasks_ok:
  assumes "\<not> failed (fst (db_select_order ''tasks'' ''*'' ''id'' False w))"
  shows "fst (fetchTasks (app, w)) = app\<lparr>tasks := order_rows ''id'' False (table w)\<rparr>"
  using assms
  by (simp add: fetchTasks_app select_reply failed_def split: option.splits fault.splits)

lemma fetchTasks_table: "table (snd (fetchTasks (app, w))) = table w"
  by (simp add: fetchTasks_world issue_keeps console_error_def split: reply.splits)

lemma safe_ids_order_rows: "safe_ids (order_rows c asc rs) = safe_ids rs"
  by (simp add: safe_ids_def list_all_iff order_rows_def set_arrange)

lemma safe_ids_redescribed: "safe_ids (redescribed i d rs) = safe_ids rs"
  by (induction rs) (simp_all add: safe_ids_def redescribed_def)

lemma sample_select_ok:
  "\<not> failed (fst (db_select_order ''tasks'' ''*'' ''id'' False sample_world))"
  by (simp add: failed_select next_fault_def sample_world_def)

text \<open>
  C1. When the select of \<^verbatim>\<open>fetchTasks\<close> succeeds, on a table whose rows have distinct
  ids in the safe range, the state it leaves is the old one with \<open>tasks\<close> replaced as a
  whole by the rows of the table ordered by \<^verbatim>\<open>id\<close>, not ascending: the view holds
  exactly the rows of the table, of any two neighbours in it the first has the greater
  id, and every id in it is in the safe range.
\<close>

theorem fetchTasks_view_descending:
  assumes "distinct (map id_t (table w))"
    and "\<not> failed (fst (db_select_order ''tasks'' ''*'' ''id'' False w))"
    and "fetchTasks (app, w) = (app', w')"
    and "safe_ids (table w)"
  shows "app' = app\<lparr>tasks := order_rows ''id'' False (table w)\<rparr>
       \<and> mset (tasks app') = mset (table w)
       \<and> (\<forall>i. Suc i < length (tasks app') \<longrightarrow>
              id_t (tasks app' ! Suc i) < id_t (tasks app' ! i))
       \<and> safe_ids (tasks app')"
proof -
  have a: "app' = app\<lparr>tasks := order_rows ''id'' False (table w)\<rparr>"
    using fetchTasks_ok [OF assms(2), of app] assms(3) by simp
  have v: "tasks app' = order_rows ''id'' False (table w)"
    by (simp add: a)
  have k: "safe_ids (tasks app')"
    using assms(4) by (simp add: v safe_ids_order_rows)
  have m: "mset (tasks app') = mset (table w)"
    by (simp add: v order_rows_def mset_arrange)
  have d: "\<forall>i. Suc i < length (tasks app') \<longrightarrow>
             id_t (tasks app' ! Suc i) < id_t (tasks app' ! i)"
    unfolding v using order_rows_adjacent [OF assms(1)] by blast
  from a m d k show ?thesis by blast
qed

theorem fetchTasks_view_descending_witness:
  "distinct (map id_t (table sample_world))
   \<and> safe_ids (table sample_world)
   \<and> \<not> failed (fst (db_select_order ''tasks'' ''*'' ''id'' False sample_world))
   \<and> mset (tasks (fst (fetchTasks (sample_app, sample_world)))) = mset (table sample_world)
   \<and> map id_t (tasks (fst (fetchTasks (sample_app, sample_world)))) = [3, 2, 1]"
proof -
  have h1: "distinct (map id_t (table sample_world))"
    by (simp add: sample_world_def sample_rows_def)
  have h3: "fetchTasks (sample_app, sample_world)
              = (fst (fetchTasks (sample_app, sample_world)),
                 snd (fetchTasks (sample_app, sample_world)))"
    by simp
  have t: "table sample_world = sample_rows"
    by (simp add: sample_world_def)
  have h4: "safe_ids (table sample_world)"
    by (simp add: safe_ids_def safe_integer_def sample_world_def sample_rows_def)
  note c = fetchTasks_view_descending [OF h1 sample_select_ok h3 h4]
  have v: "tasks (fst (fetchTasks (sample_app, sample_world)))
             = [sample_rows ! 1, sample_rows ! 2, sample_rows ! 0]"
    using c [THEN conjunct1] by (simp add: t order_sample_rows)
  have m: "mset (tasks (fst (fetchTasks (sample_app, sample_world)))) = mset (table sample_world)"
    using c by blast
  have i: "map id_t (tasks (fst (fetchTasks (sample_app, sample_world)))) = [3, 2, 1]"
    by (simp add: v sample_rows_def)
  from h1 h4 sample_select_ok m i show ?thesis by blast
qed

text \<open>
  C7. When the select of \<^verbatim>\<open>fetchTasks\<close> fails (it returns an error, or throws), the
  React state, the local view in it, is exactly what it was.
\<close>

theorem fetchTasks_failure_keeps_view:
  assumes "failed (fst (db_select_order ''tasks'' ''*'' ''id'' False w))"
  shows "fst (fetchTasks (app, w)) = app"
  using assms by (simp add: fetchTasks_app failed_def split: reply.splits)

theorem fetchTasks_failure_keeps_view_witness:
  "failed (fst (db_select_order ''tasks'' ''*'' ''id'' False offline_world))
   \<and> tasks (fst (fetchTasks (loaded_app, offline_world))) = tasks loaded_app"
proof -
  have h: "failed (fst (db_select_order ''tasks'' ''*'' ''id'' False offline_world))"
    by (simp add: failed_select next_fault_def offline_world_def shrunk_world_def sample_world_def)
  show ?thesis
    using h fetchTasks_failure_keeps_view [OF h, of loaded_app] by simp
qed

text \<open>
  C9. After a \<^verbatim>\<open>fetchTasks\<close> whose select succeeded, a second \<^verbatim>\<open>fetchTasks\<close> run on
  the state and world the first one left (nothing in between) leaves the same view.
\<close>

theorem refresh_twice_same_view:
  assumes "\<not> failed (fst (db_select_order ''tasks'' ''*'' ''id'' False w))"
  shows "tasks (fst (fetchTasks (fetchTasks (app, w)))) = tasks (fst (fetchTasks (app, w)))"
proof -
  obtain app1 w1 where s: "fetchTasks (app, w) = (app1, w1)"
    by (cases "fetchTasks (app, w)")
  have t: "table w1 = table w"
    using fetchTasks_table [of app w] s by simp
  have v: "tasks app1 = order_rows ''id'' False (table w)"
    using fetchTasks_ok [OF assms, of app] s by simp
  have "tasks (fst (fetchTasks (app1, w1))) = tasks app1"
    by (simp add: fetchTasks_app select_reply t v split: option.splits fault.splits reply.splits)
  then show ?thesis by (simp add: s)
qed

theorem refresh_twice_same_view_witness:
  "\<not> failed (fst (db_select_order ''tasks'' ''*'' ''id'' False sample_world))
   \<and> tasks (fst (fetchTasks (fetchTasks (sample_app, sample_world))))
       = tasks (fst (fetchTasks (sample_app, sample_world)))"
  using sample_select_ok refresh_twice_same_view [OF sample_select_ok, of sample_app]
  by simp

section \<open>Updating: \<^verbatim>\<open>updateTask\<close>\<close>

lemma update_world:
  "snd (db_update_eq ''tasks'' p ''id'' (Num i) w) =
     (if next_fault w = None
      then (snd (issue (UpdateEq ''tasks'' p ''id'' (Num i)) w))
             \<lparr>table := map (\<lambda>r. if id_t r = i then apply_patch p r else r) (table w)\<rparr>
      else snd (issue (UpdateEq ''tasks'' p ''id'' (Num i)) w))"
  using issue_fst [of "UpdateEq ''tasks'' p ''id'' (Num i)" w]
        issue_keeps(1) [of "UpdateEq ''tasks'' p ''id'' (Num i)" w]
  by (auto simp: db_update_eq_def columns_def col_val_def split: prod.splits option.splits fault.splits)

lemma update_reply:
  "fst (db_update_eq ''tasks'' p ''id'' (Num i) w) =
     (case next_fault w of
        None \<Rightarrow> Data ()
      | Some (Rejects e) \<Rightarrow> Error e
      | Some (Throws e) \<Rightarrow> Threw e)"
  using issue_fst [of "UpdateEq ''tasks'' p ''id'' (Num i)" w]
  by (auto simp: db_update_eq_def columns_def split: prod.splits option.splits fault.splits)

lemma failed_update:
  "failed (fst (db_update_eq ''tasks'' p ''id'' (Num i) w)) \<longleftrightarrow> next_fault w \<noteq> None"
  by (simp add: update_reply failed_def split: option.splits fault.splits)

lemma apply_update_patch: "apply_patch (update_patch d) r = r\<lparr>description := d\<rparr>"
  by (simp add: apply_patch_def update_patch_def)

lemma updateTask_unfold:
  "updateTask i (app, w) =
     (case db_update_eq ''tasks'' (update_patch (newDescription app)) ''id'' (Num i) w of
        (Threw e, w1) \<Rightarrow> (app, w1)
      | (Error msg, w1) \<Rightarrow> (app, console_error (''Update error: '' @ msg) w1)
      | (Data _, w1) \<Rightarrow>
          fetchTasks (app\<lparr>newDescription := []\<rparr>, console_log ''Task updated'' w1))"
  by (simp add: updateTask_def update_patch_def)

lemma console_keeps:
  "table (console_log m w) = table w" "table (console_error m w) = table w"
  "trace (console_log m w) = trace w" "trace (console_error m w) = trace w"
  "serial (console_log m w) = serial w" "serial (console_error m w) = serial w"
  "script (console_log m w) = script w" "script (console_error m w) = script w"
  "objects (console_log m w) = objects w" "objects (console_error m w) = objects w"
  "clock (console_log m w) = clock w" "clock (console_error m w) = clock w"
  "publicUrlOf (console_log m w) = publicUrlOf w" "publicUrlOf (console_error m w) = publicUrlOf w"
  "console (console_log m w) = console w @ [ConsoleLog m]"
  "console (console_error m w) = console w @ [ConsoleError m]"
  by (simp_all add: console_log_def console_error_def)

lemma next_fault_console:
  "next_fault (console_log m w) = next_fault w" "next_fault (console_error m w) = next_fault w"
  by (simp_all add: next_fault_def console_keeps)

lemma fetchTasks_trace: "trace (snd (fetchTasks (app, w))) = trace w @ [fetch_request]"
  by (simp add: fetchTasks_world issue_keeps console_keeps split: reply.splits)


lemma updateTask_ok:
  assumes "next_fault w = None"
  shows "updateTask i (app, w) =
           fetchTasks (app\<lparr>newDescription := []\<rparr>,
             console_log ''Task updated''
               ((snd (issue (update_request (newDescription app) i) w))
                  \<lparr>table := redescribed i (newDescription app) (table w)\<rparr>))"
proof -
  obtain r w1 where e: "db_update_eq ''tasks'' (update_patch (newDescription app)) ''id'' (Num i) w = (r, w1)"
    by (cases "db_update_eq ''tasks'' (update_patch (newDescription app)) ''id'' (Num i) w")
  have r: "r = Data ()"
    using update_reply [of "update_patch (newDescription app)" i w] e assms by simp
  have w1: "w1 = (snd (issue (update_request (newDescription app) i) w))
                  \<lparr>table := redescribed i (newDescription app) (table w)\<rparr>"
    using update_world [of "update_patch (newDescription app)" i w] e assms
    by (simp add: update_request_def redescribed_def apply_update_patch)
  show ?thesis
    by (simp add: updateTask_unfold e r w1)
qed

lemma updateTask_rejected:
  assumes "next_fault w = Some (Rejects msg)"
  shows "updateTask i (app, w) =
           (app, console_error (''Update error: '' @ msg)
                   (snd (issue (update_request (newDescription app) i) w)))"
proof -
  obtain r w1 where e: "db_update_eq ''tasks'' (update_patch (newDescription app)) ''id'' (Num i) w = (r, w1)"
    by (cases "db_update_eq ''tasks'' (update_patch (newDescription app)) ''id'' (Num i) w")
  have r: "r = Error msg"
    using update_reply [of "update_patch (newDescription app)" i w] e assms by simp
  have w1: "w1 = snd (issue (update_request (newDescription app) i) w)"
    using update_world [of "update_patch (newDescription app)" i w] e assms
    by (simp add: update_request_def)
  show ?thesis
    by (simp add: updateTask_unfold e r w1)
qed

lemma updateTask_thrown:
  assumes "next_fault w = Some (Throws msg)"
  shows "updateTask i (app, w) = (app, snd (issue (update_request (newDescription app) i) w))"
proof -
  obtain r w1 where e: "db_update_eq ''tasks'' (update_patch (newDescription app)) ''id'' (Num i) w = (r, w1)"
    by (cases "db_update_eq ''tasks'' (update_patch (newDescription app)) ''id'' (Num i) w")
  have r: "r = Threw msg"
    using update_reply [of "update_patch (newDescription app)" i w] e assms by simp
  have w1: "w1 = snd (issue (update_request (newDescription app) i) w)"
    using update_world [of "update_patch (newDescription app)" i w] e assms
    by (simp add: update_request_def)
  show ?thesis
    by (simp add: updateTask_unfold e r w1)
qed



lemma updateTask_table:
  assumes "updateTask i (app, w) = (app', w')"
  shows "table w' = (if next_fault w = None then redescribed i (newDescription app) (table w)
                     else table w)"
proof (cases "next_fault w")
  case None
  have "table (snd (updateTask i (app, w))) = redescribed i (newDescription app) (table w)"
    by (simp add: updateTask_ok [OF None] fetchTasks_table console_keeps)
  then show ?thesis using assms None by simp
next
  case (Some f)
  have "table (snd (updateTask i (app, w))) = table w"
    using Some
    by (cases f) (simp_all add: updateTask_rejected updateTask_thrown console_keeps issue_keeps)
  then show ?thesis using assms Some by simp
qed

lemma issued_self: "issued w w = []"
  by (simp add: issued_def)




lemma set_redescribed:
  "set (redescribed i d rs) = (\<lambda>r. if id_t r = i then r\<lparr>description := d\<rparr> else r) ` set rs"
  by (simp add: redescribed_def)

text \<open>
  C3. Let the id \<open>i\<close> and the ids of the table be in the safe range.
  When the update of \<^verbatim>\<open>updateTask(i)\<close> succeeds, the table is the old one with the
  \<^verbatim>\<open>description\<close> of the rows whose id is \<open>i\<close> set to \<^verbatim>\<open>newDescription\<close>, and a
  \<^verbatim>\<open>fetchTasks\<close> that follows and succeeds shows exactly these rows: a row with id
  \<open>i\<close> appears with the new description and its other fields as before, and every row
  with another id appears as it was.
\<close>

theorem updateTask_then_refresh:
  assumes "\<not> failed (fst (db_update_eq ''tasks'' (update_patch (newDescription app)) ''id'' (Num i) w))"
    and "updateTask i (app, w) = (app1, w1)"
    and "\<not> failed (fst (db_select_order ''tasks'' ''*'' ''id'' False w1))"
    and "fetchTasks (app1, w1) = (app2, w2)"
    and "safe_integer i" and "safe_ids (table w)"
  shows "table w1 = redescribed i (newDescription app) (table w)
       \<and> tasks app2 = order_rows ''id'' False (redescribed i (newDescription app) (table w))
       \<and> (\<forall>r\<in>set (table w). id_t r = i \<longrightarrow> r\<lparr>description := newDescription app\<rparr> \<in> set (tasks app2))
       \<and> (\<forall>r\<in>set (table w). id_t r \<noteq> i \<longrightarrow> r \<in> set (tasks app2))
       \<and> (\<forall>t\<in>set (tasks app2). \<exists>r\<in>set (table w).
              id_t t = id_t r \<and> title t = title r \<and> image_url t = image_url r \<and>
              video_url t = video_url r \<and>
              description t = (if id_t r = i then newDescription app else description r))
       \<and> safe_ids (tasks app2)"
proof -
  let ?d = "newDescription app"
  have nf: "next_fault w = None"
    using assms(1) by (simp add: failed_update)
  have t1: "table w1 = redescribed i ?d (table w)"
    using updateTask_table [OF assms(2)] nf by simp
  have v: "tasks app2 = order_rows ''id'' False (redescribed i ?d (table w))"
    using fetchTasks_ok [OF assms(3), of app1] assms(4) by (simp add: t1)
  have s: "set (tasks app2) = (\<lambda>r. if id_t r = i then r\<lparr>description := ?d\<rparr> else r) ` set (table w)"
    by (simp add: v order_rows_def set_arrange set_redescribed)
  have c3: "\<forall>r\<in>set (table w). id_t r = i \<longrightarrow> r\<lparr>description := ?d\<rparr> \<in> set (tasks app2)"
    unfolding s by force
  have c4: "\<forall>r\<in>set (table w). id_t r \<noteq> i \<longrightarrow> r \<in> set (tasks app2)"
    unfolding s by force
  have c5: "\<forall>t\<in>set (tasks app2). \<exists>r\<in>set (table w).
              id_t t = id_t r \<and> title t = title r \<and> image_url t = image_url r \<and>
              video_url t = video_url r \<and>
              description t = (if id_t r = i then ?d else description r)"
    unfolding s by auto
  have c6: "safe_ids (tasks app2)"
    using assms(6) by (simp add: v safe_ids_order_rows safe_ids_redescribed)
  from t1 v c3 c4 c5 c6 show ?thesis by blast
qed



theorem updateTask_then_refresh_witness:
  "\<not> failed (fst (db_update_eq ''tasks'' (update_patch (newDescription loaded_app)) ''id''
                    (Num 3) sample_world))
   \<and> safe_integer 3 \<and> safe_ids (table sample_world)
   \<and> \<not> failed (fst (db_select_order ''tasks'' ''*'' ''id'' False
                    (snd (updateTask 3 (loaded_app, sample_world)))))
   \<and> tasks (fst (fetchTasks (updateTask 3 (loaded_app, sample_world))))
       = [(sample_rows ! 1)\<lparr>description := ''done''\<rparr>, sample_rows ! 2, sample_rows ! 0]"
proof -
  let ?s1 = "updateTask 3 (loaded_app, sample_world)"
  let ?s2 = "fetchTasks ?s1"
  have h1: "\<not> failed (fst (db_update_eq ''tasks'' (update_patch (newDescription loaded_app))
                            ''id'' (Num 3) sample_world))"
    by (simp add: failed_update next_fault_def sample_world_def)
  have h2: "?s1 = (fst ?s1, snd ?s1)"
    by simp
  have h3: "\<not> failed (fst (db_select_order ''tasks'' ''*'' ''id'' False (snd ?s1)))"
    by code_simp
  have h4: "fetchTasks (fst ?s1, snd ?s1) = (fst ?s2, snd ?s2)"
    by simp
  have h5: "safe_integer 3"
    by (simp add: safe_integer_def)
  have h6: "safe_ids (table sample_world)"
    by (simp add: safe_ids_def safe_integer_def sample_world_def sample_rows_def)
  note c = updateTask_then_refresh [OF h1 h2 h3 h4 h5 h6]
  have v: "tasks (fst ?s2)
             = order_rows ''id'' False
                 (redescribed 3 (newDescription loaded_app) (table sample_world))"
    using c by blast
  have e: "order_rows ''id'' False
             (redescribed 3 (newDescription loaded_app) (table sample_world))
             = [(sample_rows ! 1)\<lparr>description := ''done''\<rparr>, sample_rows ! 2, sample_rows ! 0]"
    by code_simp
  from h1 h3 h5 h6 v e show ?thesis by simp
qed



section \<open>Attachments: \<^verbatim>\<open>uploadFile\<close>\<close>

lemma upload_reply:
  "fst (storage_upload b p f True w) =
     (case next_fault w of
        None \<Rightarrow> Data ()
      | Some (Rejects e) \<Rightarrow> Error e
      | Some (Throws e) \<Rightarrow> Threw e)"
  using issue_fst [of "StorageUpload b p f True" w]
  by (auto simp: storage_upload_def split: prod.splits option.splits fault.splits)

lemma upload_world:
  "snd (storage_upload b p f True w) =
     (if next_fault w = None
      then (snd (issue (StorageUpload b p f True) w))\<lparr>objects := (objects w)((b, p) \<mapsto> f)\<rparr>
      else snd (issue (StorageUpload b p f True) w))"
  using issue_fst [of "StorageUpload b p f True" w]
        issue_keeps(3) [of "StorageUpload b p f True" w]
  by (auto simp: storage_upload_def split: prod.splits option.splits fault.splits)

lemma upload_without_upsert_collides:
  assumes "next_fault w = None" and "objects w (b, p) = Some old"
  shows "storage_upload b p f False w
           = (Error ''The resource already exists'', snd (issue (StorageUpload b p f False) w))"
  using issue_fst [of "StorageUpload b p f False" w] assms
        issue_keeps(3) [of "StorageUpload b p f False" w]
  by (auto simp: storage_upload_def split: prod.splits option.splits fault.splits)


lemma uploadFile_unfold:
  "uploadFile file folder w =
     (case storage_upload ''notes-images'' (upload_path folder file w) file True w of
        (Threw e, w1) \<Rightarrow> (None, console_error (''Unexpected upload error: '' @ e) w1)
      | (Error msg, w1) \<Rightarrow> (None, console_error (''Upload error: '' @ msg) w1)
      | (Data _, w1) \<Rightarrow>
          (case resolved (publicUrlOf w1 ''notes-images'' (upload_path folder file w)) of
             None \<Rightarrow> (None, console_error ''No public URL returned'' w1)
           | Some publicUrl \<Rightarrow>
               (Some publicUrl, console_log (''Uploaded file URL: '' @ publicUrl) w1)))"
proof -
  let ?p = "upload_path folder file w"
  obtain r w1 where e: "storage_upload ''notes-images'' ?p file True w = (r, w1)"
    by (cases "storage_upload ''notes-images'' ?p file True w")
  have u: "uploadFile file folder w =
     (case storage_upload ''notes-images'' ?p file True w of
        (Threw e, w1) \<Rightarrow> (None, console_error (''Unexpected upload error: '' @ e) w1)
      | (Error msg, w1) \<Rightarrow> (None, console_error (''Upload error: '' @ msg) w1)
      | (Data _, w1) \<Rightarrow>
          (case storage_getPublicUrl ''notes-images'' ?p w1 of
             None \<Rightarrow> (None, console_error ''No public URL returned'' w1)
           | Some publicUrl \<Rightarrow>
               if publicUrl = [] then (None, console_error ''No public URL returned'' w1)
               else (Some publicUrl, console_log (''Uploaded file URL: '' @ publicUrl) w1)))"
    unfolding uploadFile_def upload_path_def Let_def ..
  show ?thesis
    unfolding u e
    by (cases r; cases "publicUrlOf w1 ''notes-images'' ?p")
       (simp_all add: resolved_def storage_getPublicUrl_def)
qed


lemma uploadFile_eq:
  "uploadFile file folder w =
     (case next_fault w of
        Some (Throws e) \<Rightarrow>
          (None, console_error (''Unexpected upload error: '' @ e)
                   (snd (issue (StorageUpload ''notes-images'' (upload_path folder file w) file True) w)))
      | Some (Rejects msg) \<Rightarrow>
          (None, console_error (''Upload error: '' @ msg)
                   (snd (issue (StorageUpload ''notes-images'' (upload_path folder file w) file True) w)))
      | None \<Rightarrow>
          (case resolved (publicUrlOf w ''notes-images'' (upload_path folder file w)) of
             None \<Rightarrow>
               (None, console_error ''No public URL returned''
                  ((snd (issue (StorageUpload ''notes-images'' (upload_path folder file w) file True) w))
                     \<lparr>objects := (objects w)((''notes-images'', upload_path folder file w) \<mapsto> file)\<rparr>))
           | Some u \<Rightarrow>
               (Some u, console_log (''Uploaded file URL: '' @ u)
                  ((snd (issue (StorageUpload ''notes-images'' (upload_path folder file w) file True) w))
                     \<lparr>objects := (objects w)((''notes-images'', upload_path folder file w) \<mapsto> file)\<rparr>))))"
proof -
  let ?p = "upload_path folder file w"
  let ?rq = "StorageUpload ''notes-images'' ?p file True"
  have e: "storage_upload ''notes-images'' ?p file True w
             = (fst (storage_upload ''notes-images'' ?p file True w),
                snd (storage_upload ''notes-images'' ?p file True w))"
    by simp
  show ?thesis
  proof (cases "next_fault w")
    case None
    have r: "fst (storage_upload ''notes-images'' ?p file True w) = Data ()"
      by (simp add: upload_reply None)
    have w1: "snd (storage_upload ''notes-images'' ?p file True w)
                = (snd (issue ?rq w))\<lparr>objects := (objects w)((''notes-images'', ?p) \<mapsto> file)\<rparr>"
      by (simp add: upload_world None)
    have u: "publicUrlOf ((snd (issue ?rq w))\<lparr>objects := (objects w)((''notes-images'', ?p) \<mapsto> file)\<rparr>)
               = publicUrlOf w"
      by (simp add: issue_keeps)
    show ?thesis
      by (subst uploadFile_unfold, subst e) (simp add: r w1 u None)
  next
    case (Some f)
    have w1: "snd (storage_upload ''notes-images'' ?p file True w) = snd (issue ?rq w)"
      by (simp add: upload_world Some)
    show ?thesis
    proof (cases f)
      case (Rejects m)
      have r: "fst (storage_upload ''notes-images'' ?p file True w) = Error m"
        by (simp add: upload_reply Some Rejects)
      show ?thesis
        by (subst uploadFile_unfold, subst e) (simp add: r w1 Some Rejects)
    next
      case (Throws m)
      have r: "fst (storage_upload ''notes-images'' ?p file True w) = Threw m"
        by (simp add: upload_reply Some Throws)
      show ?thesis
        by (subst uploadFile_unfold, subst e) (simp add: r w1 Some Throws)
    qed
  qed
qed

lemma uploadFile_result:
  "fst (uploadFile file folder w) =
     (if next_fault w = None
      then resolved (publicUrlOf w ''notes-images'' (upload_path folder file w))
      else None)"
  by (simp add: uploadFile_eq split: option.splits fault.splits)

lemma uploadFile_trace:
  "trace (snd (uploadFile file folder w))
     = trace w @ [StorageUpload ''notes-images'' (upload_path folder file w) file True]"
  by (simp add: uploadFile_eq issue_keeps console_keeps split: option.splits fault.splits)

lemma uploadFile_objects:
  "objects (snd (uploadFile file folder w)) =
     (if next_fault w = None
      then (objects w)((''notes-images'', upload_path folder file w) \<mapsto> file)
      else objects w)"
  by (simp add: uploadFile_eq issue_keeps console_keeps split: option.splits fault.splits)

lemma uploadFile_keeps:
  "table (snd (uploadFile file folder w)) = table w"
  "serial (snd (uploadFile file folder w)) = serial w"
  "script (snd (uploadFile file folder w)) = tl (script w)"
  "publicUrlOf (snd (uploadFile file folder w)) = publicUrlOf w"
  by (simp_all add: uploadFile_eq issue_keeps issue_script console_keeps split: option.splits fault.splits)

lemma uploadFile_console:
  "console (snd (uploadFile file folder w)) =
     console w @
       [case next_fault w of
          Some (Throws e) \<Rightarrow> ConsoleError (''Unexpected upload error: '' @ e)
        | Some (Rejects msg) \<Rightarrow> ConsoleError (''Upload error: '' @ msg)
        | None \<Rightarrow>
            (case resolved (publicUrlOf w ''notes-images'' (upload_path folder file w)) of
               None \<Rightarrow> ConsoleError ''No public URL returned''
             | Some u \<Rightarrow> ConsoleLog (''Uploaded file URL: '' @ u))]"
  by (simp add: uploadFile_eq issue_keeps console_keeps split: option.splits fault.splits)


section \<open>Creating: \<^verbatim>\<open>createTask\<close>\<close>

lemma insert_reply:
  "fst (db_insert ''tasks'' rows w) =
     (case next_fault w of
        None \<Rightarrow> Data ()
      | Some (Rejects e) \<Rightarrow> Error e
      | Some (Throws e) \<Rightarrow> Threw e)"
  using issue_fst [of "Insert ''tasks'' rows" w]
  by (auto simp: db_insert_def split: prod.splits option.splits fault.splits)

lemma insert_world:
  "snd (db_insert ''tasks'' rows w) =
     (if next_fault w = None
      then (snd (issue (Insert ''tasks'' rows) w))
             \<lparr>table := table w @ new_rows (serial w) rows,
              serial := serial w + int (length rows)\<rparr>
      else snd (issue (Insert ''tasks'' rows) w))"
  using issue_fst [of "Insert ''tasks'' rows" w]
        issue_keeps(1,2) [of "Insert ''tasks'' rows" w]
  by (auto simp: db_insert_def split: prod.splits option.splits fault.splits)

lemma failed_insert: "failed (fst (db_insert ''tasks'' rows w)) \<longleftrightarrow> next_fault w \<noteq> None"
  by (simp add: insert_reply failed_def split: option.splits fault.splits)

lemma failed_upload:
  "failed (fst (storage_upload b p f True w)) \<longleftrightarrow> next_fault w \<noteq> None"
  by (simp add: upload_reply failed_def split: option.splits fault.splits)

lemma createTask_unfold:
  "createTask (app, w) =
     (case image_step app w of (imageUrl, w1) \<Rightarrow>
      case video_step app w1 of (videoUrl, w2) \<Rightarrow>
      case db_insert ''tasks'' [new_row app imageUrl videoUrl] w2 of
        (Threw e, w3) \<Rightarrow> (app, w3)
      | (Error msg, w3) \<Rightarrow> (app, console_error (''Insert error: '' @ msg) w3)
      | (Data _, w3) \<Rightarrow>
          fetchTasks (cleared app, console_log ''Task added successfully!'' w3))"
  by (simp only: createTask_def prod.case image_step_def video_step_def new_row_def cleared_def)

lemma createTask_eq:
  assumes "image_step app w = (imageUrl, w1)" and "video_step app w1 = (videoUrl, w2)"
  shows "createTask (app, w) =
     (case next_fault w2 of
        Some (Throws e) \<Rightarrow>
          (app, snd (issue (Insert ''tasks'' [new_row app imageUrl videoUrl]) w2))
      | Some (Rejects msg) \<Rightarrow>
          (app, console_error (''Insert error: '' @ msg)
                  (snd (issue (Insert ''tasks'' [new_row app imageUrl videoUrl]) w2)))
      | None \<Rightarrow>
          fetchTasks (cleared app, console_log ''Task added successfully!''
            ((snd (issue (Insert ''tasks'' [new_row app imageUrl videoUrl]) w2))
               \<lparr>table := table w2 @ [created app imageUrl videoUrl w2],
                serial := serial w2 + 1\<rparr>)))"
proof -
  let ?rows = "[new_row app imageUrl videoUrl]"
  have e: "db_insert ''tasks'' ?rows w2
             = (fst (db_insert ''tasks'' ?rows w2), snd (db_insert ''tasks'' ?rows w2))"
    by simp
  show ?thesis
  proof (cases "next_fault w2")
    case None
    show ?thesis
      by (subst createTask_unfold, simp only: assms prod.case, subst e)
         (simp add: insert_reply insert_world None new_row_def created_def)
  next
    case (Some f)
    show ?thesis
    proof (cases f)
      case (Rejects m)
      show ?thesis
        by (subst createTask_unfold, simp only: assms prod.case, subst e)
           (simp add: insert_reply insert_world Some Rejects)
    next
      case (Throws m)
      show ?thesis
        by (subst createTask_unfold, simp only: assms prod.case, subst e)
           (simp add: insert_reply insert_world Some Throws)
    qed
  qed
qed

lemma image_step_keeps:
  "table (snd (image_step app w)) = table w"
  "serial (snd (image_step app w)) = serial w"
  by (simp_all add: image_step_def uploadFile_keeps split: option.splits)

lemma video_step_keeps:
  "table (snd (video_step app w)) = table w"
  "serial (snd (video_step app w)) = serial w"
  by (simp_all add: video_step_def uploadFile_keeps split: option.splits)

lemma image_step_trace:
  "trace (snd (image_step app w)) =
     trace w @ (case taskImage app of None \<Rightarrow> []
                | Some f \<Rightarrow> [StorageUpload ''notes-images'' (upload_path ''images'' f w) f True])"
  by (simp add: image_step_def uploadFile_trace split: option.splits)

lemma video_step_trace:
  "trace (snd (video_step app w)) =
     trace w @ (case taskVideo app of None \<Rightarrow> []
                | Some f \<Rightarrow> [StorageUpload ''notes-images'' (upload_path ''videos'' f w) f True])"
  by (simp add: video_step_def uploadFile_trace split: option.splits)

lemma createTask_trace:
  assumes "image_step app w = (imageUrl, w1)" and "video_step app w1 = (videoUrl, w2)"
  shows "trace (snd (createTask (app, w))) =
           trace w2 @ Insert ''tasks'' [new_row app imageUrl videoUrl]
             # (if next_fault w2 = None then [fetch_request] else [])"
  by (simp add: createTask_eq [OF assms] fetchTasks_trace console_keeps issue_keeps
           split: option.splits fault.splits)

lemma createTask_table:
  assumes "image_step app w = (imageUrl, w1)" and "video_step app w1 = (videoUrl, w2)"
  shows "table (snd (createTask (app, w))) =
           (if next_fault w2 = None then table w @ [created app imageUrl videoUrl w]
            else table w)"
proof -
  have t: "table w2 = table w" "serial w2 = serial w"
    using image_step_keeps [of app w] video_step_keeps [of app w1] assms by simp_all
  have c: "created app imageUrl videoUrl w2 = created app imageUrl videoUrl w"
    by (simp add: created_def t)
  show ?thesis
    by (simp add: createTask_eq [OF assms] fetchTasks_table console_keeps issue_keeps t c
             split: option.splits fault.splits)
qed

lemma uploadFile_issued:
  "issued w (snd (uploadFile file folder w))
     = [StorageUpload ''notes-images'' (upload_path folder file w) file True]"
  by (simp add: issued_def uploadFile_trace)

lemma uploadFile_logged:
  "logged w (snd (uploadFile file folder w)) =
       [case next_fault w of
          Some (Throws e) \<Rightarrow> ConsoleError (''Unexpected upload error: '' @ e)
        | Some (Rejects msg) \<Rightarrow> ConsoleError (''Upload error: '' @ msg)
        | None \<Rightarrow>
            (case resolved (publicUrlOf w ''notes-images'' (upload_path folder file w)) of
               None \<Rightarrow> ConsoleError ''No public URL returned''
             | Some u \<Rightarrow> ConsoleLog (''Uploaded file URL: '' @ u))]"
  by (simp add: logged_def uploadFile_console)

text \<open>
  C8. \<^verbatim>\<open>uploadFile(file, folder)\<close> makes one request: an upload to the path
  \<^verbatim>\<open>folder/<Date.now()>-<file.name>\<close> with the upsert flag set. When that path already
  holds an object and the call is not hit by a fault, the upload does not fail: the
  path then holds the new file, and the result is the reference resolved for the path.
\<close>

theorem uploadFile_path_upsert:
  assumes "uploadFile file folder w = (url, w')"
    and "path = folder @ ''/'' @ toString (clock w) @ ''-'' @ name file"
  shows "issued w w' = [StorageUpload ''notes-images'' path file True]
       \<and> (\<forall>old. objects w (''notes-images'', path) = Some old \<and> next_fault w = None \<longrightarrow>
             \<not> failed (fst (storage_upload ''notes-images'' path file True w)) \<and>
             objects w' (''notes-images'', path) = Some file \<and>
             url = resolved (publicUrlOf w ''notes-images'' path))
       \<and> (next_fault w = None \<longrightarrow> objects w' (''notes-images'', path) = Some file)"
proof -
  have p: "path = upload_path folder file w"
    by (simp add: assms(2) upload_path_def)
  have a: "issued w w' = [StorageUpload ''notes-images'' path file True]"
    using uploadFile_issued [of w "file" folder] assms(1) by (simp add: p)
  have o: "next_fault w = None \<longrightarrow> objects w' (''notes-images'', path) = Some file"
    using uploadFile_objects [of "file" folder w] assms(1) by (simp add: p)
  have u: "next_fault w = None \<longrightarrow> url = resolved (publicUrlOf w ''notes-images'' path)"
    using uploadFile_result [of "file" folder w] assms(1) by (simp add: p)
  have f: "next_fault w = None \<longrightarrow>
             \<not> failed (fst (storage_upload ''notes-images'' path file True w))"
    by (simp add: failed_upload)
  from a o u f show ?thesis by blast
qed

theorem uploadFile_path_upsert_witness:
  "''images/1712-cat.png'' = ''images'' @ ''/'' @ toString (clock occupied_world) @ ''-'' @ name sample_photo
   \<and> objects occupied_world (''notes-images'', ''images/1712-cat.png'') = Some sample_clip
   \<and> next_fault occupied_world = None
   \<and> issued occupied_world (snd (uploadFile sample_photo ''images'' occupied_world))
        = [StorageUpload ''notes-images'' ''images/1712-cat.png'' sample_photo True]
   \<and> objects (snd (uploadFile sample_photo ''images'' occupied_world))
        (''notes-images'', ''images/1712-cat.png'') = Some sample_photo"
proof -
  let ?s = "uploadFile sample_photo ''images'' occupied_world"
  have h1: "?s = (fst ?s, snd ?s)"
    by simp
  have h2: "''images/1712-cat.png''
              = ''images'' @ ''/'' @ toString (clock occupied_world) @ ''-'' @ name sample_photo"
    by code_simp
  have o: "objects occupied_world (''notes-images'', ''images/1712-cat.png'') = Some sample_clip"
    by (simp add: occupied_world_def)
  have nf: "next_fault occupied_world = None"
    by (simp add: next_fault_def occupied_world_def sample_world_def)
  note c = uploadFile_path_upsert [OF h1 h2]
  have i: "issued occupied_world (snd ?s)
             = [StorageUpload ''notes-images'' ''images/1712-cat.png'' sample_photo True]"
    using c by blast
  have n: "objects (snd ?s) (''notes-images'', ''images/1712-cat.png'') = Some sample_photo"
    using c nf by blast
  show ?thesis
    by (intro conjI) (rule h2 o nf i n)+
qed

lemma createTask_issued:
  assumes "image_step app w = (imageUrl, w1)" and "video_step app w1 = (videoUrl, w2)"
  shows "issued w (snd (createTask (app, w))) =
           (case taskImage app of None \<Rightarrow> []
            | Some f \<Rightarrow> [StorageUpload ''notes-images'' (upload_path ''images'' f w) f True])
           @ (case taskVideo app of None \<Rightarrow> []
              | Some f \<Rightarrow> [StorageUpload ''notes-images'' (upload_path ''videos'' f w1) f True])
           @ Insert ''tasks'' [new_row app imageUrl videoUrl]
             # (if next_fault w2 = None then [fetch_request] else [])"
proof -
  have t1: "trace w1 = trace w @ (case taskImage app of None \<Rightarrow> []
              | Some f \<Rightarrow> [StorageUpload ''notes-images'' (upload_path ''images'' f w) f True])"
    using image_step_trace [of app w] assms(1) by simp
  have t2: "trace w2 = trace w1 @ (case taskVideo app of None \<Rightarrow> []
              | Some f \<Rightarrow> [StorageUpload ''notes-images'' (upload_path ''videos'' f w1) f True])"
    using video_step_trace [of app w1] assms(2) by simp
  show ?thesis
    unfolding issued_def createTask_trace [OF assms] t2 t1 by simp
qed

text \<open>
  C10. Whatever the folder, every upload request of \<^verbatim>\<open>uploadFile\<close> names the bucket
  \<^verbatim>\<open>notes-images\<close> and a path under the folder, a reference it returns is the one the
  store derives for that path in \<^verbatim>\<open>notes-images\<close>, and no other bucket changes. The
  uploads of \<^verbatim>\<open>createTask\<close> all go to \<^verbatim>\<open>notes-images\<close>, under \<^verbatim>\<open>images/\<close> or
  \<^verbatim>\<open>videos/\<close>.
\<close>

theorem uploads_use_one_bucket:
  "(\<forall>b p f u. StorageUpload b p f u \<in> set (issued w (snd (uploadFile file folder w))) \<longrightarrow>
       b = ''notes-images'' \<and> take (length folder + 1) p = folder @ ''/'')
   \<and> (\<forall>u. fst (uploadFile file folder w) = Some u \<longrightarrow>
         publicUrlOf w ''notes-images'' (upload_path folder file w) = Some u)
   \<and> (\<forall>b p. b \<noteq> ''notes-images'' \<longrightarrow>
         objects (snd (uploadFile file folder w)) (b, p) = objects w (b, p))
   \<and> (\<forall>b p f u. StorageUpload b p f u \<in> set (issued w (snd (createTask (app, w)))) \<longrightarrow>
         b = ''notes-images'' \<and> (take 7 p = ''images/'' \<or> take 7 p = ''videos/''))"
proof -
  have a: "\<forall>b p f u. StorageUpload b p f u \<in> set (issued w (snd (uploadFile file folder w))) \<longrightarrow>
       b = ''notes-images'' \<and> take (length folder + 1) p = folder @ ''/''"
    by (simp add: uploadFile_issued upload_path_def)
  have b: "\<forall>u. fst (uploadFile file folder w) = Some u \<longrightarrow>
         publicUrlOf w ''notes-images'' (upload_path folder file w) = Some u"
    by (auto simp: uploadFile_result resolved_def split: if_splits option.splits)
  have c: "\<forall>b p. b \<noteq> ''notes-images'' \<longrightarrow>
         objects (snd (uploadFile file folder w)) (b, p) = objects w (b, p)"
    by (simp add: uploadFile_objects)
  obtain iu w1 where s1: "image_step app w = (iu, w1)"
    by (cases "image_step app w")
  obtain vu w2 where s2: "video_step app w1 = (vu, w2)"
    by (cases "video_step app w1")
  have d: "\<forall>b p f u. StorageUpload b p f u \<in> set (issued w (snd (createTask (app, w)))) \<longrightarrow>
         b = ''notes-images'' \<and> (take 7 p = ''images/'' \<or> take 7 p = ''videos/'')"
    by (auto simp: createTask_issued [OF s1 s2] upload_path_def fetch_request_def
             split: option.splits if_splits)
  from a b c d show ?thesis by blast
qed


theorem uploads_use_one_bucket_witness:
  "StorageUpload ''notes-images'' ''videos/1712-walk.mp4'' sample_clip True
     \<in> set (issued sample_world (snd (uploadFile sample_clip ''videos'' sample_world)))
   \<and> take (length ''videos'' + 1) ''videos/1712-walk.mp4'' = ''videos'' @ ''/''
   \<and> fst (uploadFile sample_clip ''videos'' sample_world)
       = Some ''https://cdn.example/notes-images/videos/1712-walk.mp4''
   \<and> publicUrlOf sample_world ''notes-images'' (upload_path ''videos'' sample_clip sample_world)
       = Some ''https://cdn.example/notes-images/videos/1712-walk.mp4''
   \<and> StorageUpload ''notes-images'' ''images/1712-cat.png'' sample_photo True
     \<in> set (issued sample_world (snd (createTask (attached_app, sample_world))))
   \<and> (take 7 ''images/1712-cat.png'' = ''images/'' \<or> take 7 ''images/1712-cat.png'' = ''videos/'')"
proof -
  let ?w' = "snd (uploadFile sample_clip ''videos'' sample_world)"
  have h1: "StorageUpload ''notes-images'' ''videos/1712-walk.mp4'' sample_clip True
              \<in> set (issued sample_world ?w')"
    by code_simp
  have h2: "fst (uploadFile sample_clip ''videos'' sample_world)
              = Some ''https://cdn.example/notes-images/videos/1712-walk.mp4''"
    by code_simp
  have h3: "StorageUpload ''notes-images'' ''images/1712-cat.png'' sample_photo True
     \<in> set (issued sample_world (snd (createTask (attached_app, sample_world))))"
    by code_simp
  note c = uploads_use_one_bucket [of sample_world sample_clip "''videos''" attached_app]
  have p: "take (length ''videos'' + 1) ''videos/1712-walk.mp4'' = ''videos'' @ ''/''"
    using c [THEN conjunct1, rule_format, OF h1] by (rule conjunct2)
  have u: "publicUrlOf sample_world ''notes-images''
             (upload_path ''videos'' sample_clip sample_world)
             = Some ''https://cdn.example/notes-images/videos/1712-walk.mp4''"
    using c [THEN conjunct2, THEN conjunct1, rule_format, OF h2] .
  have q: "take 7 ''images/1712-cat.png'' = ''images/'' \<or> take 7 ''images/1712-cat.png'' = ''videos/''"
    using c [THEN conjunct2, THEN conjunct2, THEN conjunct2, rule_format, OF h3]
    by (rule conjunct2)
  show ?thesis
    by (intro conjI) (rule h1 p h2 u h3 q)+
qed

lemma arrange_newest:
  assumes "\<forall>r\<in>set rs. id_t r < id_t t"
  shows "arrange (\<lambda>a b. id_t b \<le> id_t a) (rs @ [t]) = t # arrange (\<lambda>a b. id_t b \<le> id_t a) rs"
  using assms by (induction rs) auto

lemma order_rows_newest:
  assumes "\<forall>r\<in>set rs. id_t r < id_t t"
  shows "order_rows ''id'' False (rs @ [t]) = t # order_rows ''id'' False rs"
  using arrange_newest [OF assms] by (simp add: order_rows_id_desc)

lemma fetchTasks_form:
  "newTask (fst (fetchTasks (app, w))) = newTask app"
  "taskImage (fst (fetchTasks (app, w))) = taskImage app"
  "taskVideo (fst (fetchTasks (app, w))) = taskVideo app"
  by (simp_all add: fetchTasks_app split: reply.splits)

lemma createTask_app:
  assumes "image_step app w = (imageUrl, w1)" and "video_step app w1 = (videoUrl, w2)"
    and "next_fault w2 = None"
  shows "newTask (fst (createTask (app, w))) = \<lparr>title_n = [], description_n = []\<rparr>"
    and "taskImage (fst (createTask (app, w))) = None"
    and "taskVideo (fst (createTask (app, w))) = None"
  by (simp_all add: createTask_eq [OF assms(1,2)] assms(3) fetchTasks_form cleared_def)

text \<open>
  C2. Let the keys be in order and, with the next key of the store, in the safe range,
  let the two upload steps of \<^verbatim>\<open>createTask\<close> have left
  the references \<open>imageUrl\<close> and \<open>videoUrl\<close>, and let its insert succeed. Then the form
  state is cleared, the insert is followed by the request of \<^verbatim>\<open>fetchTasks\<close>, and a
  \<^verbatim>\<open>fetchTasks\<close> that follows and succeeds shows one new task in front of the rows
  the table had: its title and description are the submitted ones, its references the
  ones the uploads left, and its id is in the safe range and greater than every id of
  the table and of the view before the call.
\<close>

theorem createTask_then_refresh:
  assumes "keys_ok (app, w)"
    and "image_step app w = (imageUrl, w1)" and "video_step app w1 = (videoUrl, w2)"
    and "\<not> failed (fst (db_insert ''tasks'' [new_row app imageUrl videoUrl] w2))"
    and "createTask (app, w) = (app3, w3)"
    and "\<not> failed (fst (db_select_order ''tasks'' ''*'' ''id'' False w3))"
    and "fetchTasks (app3, w3) = (app4, w4)"
    and "safe_integer (serial w)" and "safe_ids (table w)" and "safe_ids (tasks app)"
  shows "(\<exists>t. tasks app4 = t # order_rows ''id'' False (table w)
            \<and> title t = title_n (newTask app) \<and> description t = description_n (newTask app)
            \<and> image_url t = imageUrl \<and> video_url t = videoUrl
            \<and> safe_integer (id_t t)
            \<and> (\<forall>r\<in>set (table w). id_t r < id_t t)
            \<and> (\<forall>r\<in>set (tasks app). id_t r < id_t t))
       \<and> newTask app3 = \<lparr>title_n = [], description_n = []\<rparr>
       \<and> taskImage app3 = None \<and> taskVideo app3 = None
       \<and> issued w2 w3 = [Insert ''tasks'' [new_row app imageUrl videoUrl], fetch_request]"
proof -
  let ?t = "created app imageUrl videoUrl w"
  have nf: "next_fault w2 = None"
    using assms(4) by (simp add: failed_insert)
  have k1: "\<forall>r\<in>set (table w). id_t r < id_t ?t"
    using assms(1) by (simp add: keys_ok_def created_def list_all_iff)
  have k2: "\<forall>r\<in>set (tasks app). id_t r < id_t ?t"
    using assms(1) by (simp add: keys_ok_def created_def list_all_iff)
  have t3: "table w3 = table w @ [?t]"
    using createTask_table [OF assms(2,3)] assms(5) nf by simp
  have v: "tasks app4 = ?t # order_rows ''id'' False (table w)"
    using fetchTasks_ok [OF assms(6), of app3] assms(7)
    by (simp add: t3 order_rows_newest [OF k1])
  have f: "title ?t = title_n (newTask app)" "description ?t = description_n (newTask app)"
          "image_url ?t = imageUrl" "video_url ?t = videoUrl"
    by (simp_all add: created_def)
  have g: "safe_integer (id_t ?t)"
    using assms(8) by (simp add: created_def)
  have e: "\<exists>t. tasks app4 = t # order_rows ''id'' False (table w)
            \<and> title t = title_n (newTask app) \<and> description t = description_n (newTask app)
            \<and> image_url t = imageUrl \<and> video_url t = videoUrl
            \<and> safe_integer (id_t t)
            \<and> (\<forall>r\<in>set (table w). id_t r < id_t t)
            \<and> (\<forall>r\<in>set (tasks app). id_t r < id_t t)"
    using v f g k1 k2 by blast
  have a: "newTask app3 = \<lparr>title_n = [], description_n = []\<rparr>"
          "taskImage app3 = None" "taskVideo app3 = None"
    using createTask_app [OF assms(2,3) nf] assms(5) by simp_all
  have i: "issued w2 w3 = [Insert ''tasks'' [new_row app imageUrl videoUrl], fetch_request]"
    using createTask_trace [OF assms(2,3)] assms(5) nf by (simp add: issued_def)
  from e a i show ?thesis by blast
qed


theorem createTask_then_refresh_witness:
  "keys_ok (attached_app, sample_world)
   \<and> safe_integer (serial sample_world) \<and> safe_ids (table sample_world)
   \<and> safe_ids (tasks attached_app)
   \<and> \<not> failed (fst (db_insert ''tasks''
          [new_row attached_app (fst (image_step attached_app sample_world))
             (fst (video_step attached_app (snd (image_step attached_app sample_world))))]
          (snd (video_step attached_app (snd (image_step attached_app sample_world))))))
   \<and> \<not> failed (fst (db_select_order ''tasks'' ''*'' ''id'' False
          (snd (createTask (attached_app, sample_world)))))
   \<and> newTask (fst (createTask (attached_app, sample_world))) = \<lparr>title_n = [], description_n = []\<rparr>
   \<and> taskImage (fst (createTask (attached_app, sample_world))) = None
   \<and> title (hd (tasks (fst (fetchTasks (createTask (attached_app, sample_world))))))
       = title_n (newTask attached_app)
   \<and> id_t (hd (tasks (fst (fetchTasks (createTask (attached_app, sample_world)))))) = 4"
proof -
  let ?s1 = "image_step attached_app sample_world"
  let ?s2 = "video_step attached_app (snd ?s1)"
  let ?s3 = "createTask (attached_app, sample_world)"
  let ?s4 = "fetchTasks ?s3"
  have h1: "keys_ok (attached_app, sample_world)"
    by code_simp
  have h2: "?s1 = (fst ?s1, snd ?s1)"
    by simp
  have h3: "?s2 = (fst ?s2, snd ?s2)"
    by simp
  have nf: "next_fault (snd ?s2) = None"
    by code_simp
  have h4: "\<not> failed (fst (db_insert ''tasks'' [new_row attached_app (fst ?s1) (fst ?s2)] (snd ?s2)))"
    by (simp add: failed_insert nf)
  have h5: "?s3 = (fst ?s3, snd ?s3)"
    by simp
  have h6: "\<not> failed (fst (db_select_order ''tasks'' ''*'' ''id'' False (snd ?s3)))"
    by code_simp
  have h7: "fetchTasks (fst ?s3, snd ?s3) = (fst ?s4, snd ?s4)"
    by simp
  have h8: "safe_integer (serial sample_world)"
    by (simp add: safe_integer_def sample_world_def)
  have h9: "safe_ids (table sample_world)"
    by (simp add: safe_ids_def safe_integer_def sample_world_def sample_rows_def)
  have h10: "safe_ids (tasks attached_app)"
    by (simp add: safe_ids_def attached_app_def sample_app_def)
  note c = createTask_then_refresh [OF h1 h2 h3 h4 h5 h6 h7 h8 h9 h10]
  have a: "newTask (fst ?s3) = \<lparr>title_n = [], description_n = []\<rparr>"
    using c by (elim conjE)
  have b: "taskImage (fst ?s3) = None"
    using c by (elim conjE)
  obtain t where t: "tasks (fst ?s4) = t # order_rows ''id'' False (table sample_world)"
      "title t = title_n (newTask attached_app)"
      "\<forall>r\<in>set (table sample_world). id_t r < id_t t"
    using c by blast
  have d: "title (hd (tasks (fst ?s4))) = title_n (newTask attached_app)"
    using t(1,2) by simp
  have g: "id_t (hd (tasks (fst ?s4))) = 4"
    by code_simp
  show ?thesis
    by (intro conjI) (rule h1 h8 h9 h10 h4 h6 a b d g)+
qed

lemma createTask_rows:
  assumes "createTask (app, w) = (app', w')"
  shows "table w' = table w \<or>
         (\<exists>r. table w' = table w @ [r] \<and> title r = title_n (newTask app) \<and>
               description r = description_n (newTask app))"
proof -
  obtain iu w1 where s1: "image_step app w = (iu, w1)"
    by (cases "image_step app w")
  obtain vu w2 where s2: "video_step app w1 = (vu, w2)"
    by (cases "video_step app w1")
  have "title (created app iu vu w) = title_n (newTask app)"
       "description (created app iu vu w) = description_n (newTask app)"
    by (simp_all add: created_def)
  then show ?thesis
    using createTask_table [OF s1 s2] assms by (cases "next_fault w2 = None") auto
qed

lemma createTask_inserts:
  assumes "createTask (app, w) = (app', w')" and "Insert tbl rows \<in> set (issued w w')"
  shows "\<exists>iu vu. rows = [new_row app iu vu]"
proof -
  obtain iu w1 where s1: "image_step app w = (iu, w1)"
    by (cases "image_step app w")
  obtain vu w2 where s2: "video_step app w1 = (vu, w2)"
    by (cases "video_step app w1")
  show ?thesis
    using createTask_issued [OF s1 s2] assms
    by (auto simp: fetch_request_def split: option.splits if_splits)
qed

text \<open>
  The gate of the form: a submission with an empty title or an empty description is not
  handed to \<^verbatim>\<open>createTask\<close>, and state and world stay as they are. Whatever a
  submission appends to the table, and whatever row it hands to an insert, has a title
  and a description that are not empty.
\<close>

lemma form_submit_gate:
  assumes "form_submit frm (app, w) = (app', w')"
  shows "(title_n (newTask app) = [] \<or> description_n (newTask app) = [] \<longrightarrow>
            app' = app \<and> w' = w)
       \<and> (\<exists>rs. table w' = table w @ rs \<and>
              (\<forall>r\<in>set rs. title r \<noteq> [] \<and> description r \<noteq> []))
       \<and> (\<forall>tbl rows. Insert tbl rows \<in> set (issued w w') \<longrightarrow>
              (\<forall>x\<in>set rows. title_r x \<noteq> [] \<and> description_r x \<noteq> []))"
proof (cases "checkValidity frm app")
  case False
  then have e: "app' = app" "w' = w"
    using assms by (simp_all add: form_submit_def)
  have "table w' = table w @ [] \<and> (\<forall>r\<in>set []. title r \<noteq> [] \<and> description r \<noteq> [])"
    by (simp add: e)
  then have b: "\<exists>rs. table w' = table w @ rs \<and>
              (\<forall>r\<in>set rs. title r \<noteq> [] \<and> description r \<noteq> [])"
    by blast
  show ?thesis
    using e b by (simp add: issued_self)
next
  case True
  then have c: "createTask (app, w) = (app', w')"
    using assms by (simp add: form_submit_def)
  have t: "title_n (newTask app) \<noteq> []" "description_n (newTask app) \<noteq> []"
    using True by (simp_all add: checkValidity_def)
  have b: "\<exists>rs. table w' = table w @ rs \<and>
              (\<forall>r\<in>set rs. title r \<noteq> [] \<and> description r \<noteq> [])"
  proof -
    from createTask_rows [OF c]
    consider "table w' = table w @ []"
      | r where "table w' = table w @ [r]" "title r = title_n (newTask app)"
          "description r = description_n (newTask app)"
      by auto
    then show ?thesis
    proof cases
      case 1
      then show ?thesis by (intro exI [of _ "[]"]) simp
    next
      case (2 r)
      then show ?thesis using t by (intro exI [of _ "[r]"]) simp
    qed
  qed
  have i: "\<forall>tbl rows. Insert tbl rows \<in> set (issued w w') \<longrightarrow>
              (\<forall>x\<in>set rows. title_r x \<noteq> [] \<and> description_r x \<noteq> [])"
  proof (intro allI impI)
    fix tbl rows
    assume "Insert tbl rows \<in> set (issued w w')"
    from createTask_inserts [OF c this] obtain iu vu where "rows = [new_row app iu vu]"
      by blast
    then show "\<forall>x\<in>set rows. title_r x \<noteq> [] \<and> description_r x \<noteq> []"
      using t by (simp add: new_row_def)
  qed
  from t b i show ?thesis by simp
qed


lemma image_step_issued:
  "issued w (snd (image_step app w)) =
     (case taskImage app of None \<Rightarrow> []
      | Some f \<Rightarrow> [StorageUpload ''notes-images'' (upload_path ''images'' f w) f True])"
  by (simp add: issued_def image_step_trace)

lemma video_step_issued:
  "issued w (snd (video_step app w)) =
     (case taskVideo app of None \<Rightarrow> []
      | Some f \<Rightarrow> [StorageUpload ''notes-images'' (upload_path ''videos'' f w) f True])"
  by (simp add: issued_def video_step_trace)

lemma image_step_result:
  "fst (image_step app w) =
     (case taskImage app of None \<Rightarrow> None
      | Some f \<Rightarrow> if next_fault w = None
                  then resolved (publicUrlOf w ''notes-images'' (upload_path ''images'' f w))
                  else None)"
  by (simp add: image_step_def uploadFile_result split: option.splits)

lemma video_step_result:
  "fst (video_step app w) =
     (case taskVideo app of None \<Rightarrow> None
      | Some f \<Rightarrow> if next_fault w = None
                  then resolved (publicUrlOf w ''notes-images'' (upload_path ''videos'' f w))
                  else None)"
  by (simp add: video_step_def uploadFile_result split: option.splits)

text \<open>
  C5, as the code has it. \<^verbatim>\<open>createTask\<close> does not look at the title or the
  description: whatever \<^verbatim>\<open>newTask\<close> holds, empty or not, is what it sends in the
  insert, and when the insert succeeds it is the title and description of the row
  appended. The requirement is the form's: a submission with an empty title or an empty
  description is not handed to \<^verbatim>\<open>createTask\<close> and changes nothing, and every row a
  submission of the form appends has a title and a description that are not empty.
\<close>

theorem createTask_sends_text_unchecked:
  assumes "image_step app w = (imageUrl, w1)" and "video_step app w1 = (videoUrl, w2)"
    and "createTask (app, w) = (app1, w3)"
    and "form_submit frm (app, w) = (app2, w4)"
  shows "Insert ''tasks''
           [\<lparr>title_r = title_n (newTask app), description_r = description_n (newTask app),
             image_url_r = imageUrl, video_url_r = videoUrl\<rparr>] \<in> set (issued w w3)
    \<and> (\<not> failed (fst (db_insert ''tasks'' [new_row app imageUrl videoUrl] w2)) \<longrightarrow>
          table w3 = table w @
            [\<lparr>id_t = serial w, title = title_n (newTask app),
              description = description_n (newTask app),
              image_url = imageUrl, video_url = videoUrl\<rparr>])
    \<and> (title_n (newTask app) = [] \<or> description_n (newTask app) = [] \<longrightarrow>
          app2 = app \<and> w4 = w)
    \<and> (\<exists>rs. table w4 = table w @ rs \<and>
          (\<forall>r\<in>set rs. title r \<noteq> [] \<and> description r \<noteq> []))"
proof -
  have c1: "Insert ''tasks''
           [\<lparr>title_r = title_n (newTask app), description_r = description_n (newTask app),
             image_url_r = imageUrl, video_url_r = videoUrl\<rparr>] \<in> set (issued w w3)"
    using createTask_issued [OF assms(1,2)] assms(3) by (simp add: new_row_def)
  have c2: "\<not> failed (fst (db_insert ''tasks'' [new_row app imageUrl videoUrl] w2)) \<longrightarrow>
          table w3 = table w @
            [\<lparr>id_t = serial w, title = title_n (newTask app),
              description = description_n (newTask app),
              image_url = imageUrl, video_url = videoUrl\<rparr>]"
    using createTask_table [OF assms(1,2)] assms(3) by (simp add: failed_insert created_def)
  note g = form_submit_gate [OF assms(4)]
  have c3: "title_n (newTask app) = [] \<or> description_n (newTask app) = [] \<longrightarrow>
          app2 = app \<and> w4 = w"
    using g by (rule conjunct1)
  have c4: "\<exists>rs. table w4 = table w @ rs \<and>
          (\<forall>r\<in>set rs. title r \<noteq> [] \<and> description r \<noteq> [])"
    using g [THEN conjunct2] by (rule conjunct1)
  show ?thesis
    by (intro conjI) (rule c1 c2 c3 c4)+
qed

theorem createTask_sends_text_unchecked_witness:
  "title_n (newTask blank_app) = []
   \<and> \<not> failed (fst (db_insert ''tasks''
          [new_row blank_app (fst (image_step blank_app sample_world))
             (fst (video_step blank_app (snd (image_step blank_app sample_world))))]
          (snd (video_step blank_app (snd (image_step blank_app sample_world))))))
   \<and> table (snd (createTask (blank_app, sample_world))) = table sample_world @
        [\<lparr>id_t = serial sample_world, title = title_n (newTask blank_app),
          description = description_n (newTask blank_app),
          image_url = fst (image_step blank_app sample_world),
          video_url = fst (video_step blank_app (snd (image_step blank_app sample_world)))\<rparr>]
   \<and> fst (form_submit full_form (blank_app, sample_world)) = blank_app
   \<and> snd (form_submit full_form (blank_app, sample_world)) = sample_world"
proof -
  let ?s1 = "image_step blank_app sample_world"
  let ?s2 = "video_step blank_app (snd ?s1)"
  let ?s3 = "createTask (blank_app, sample_world)"
  let ?s4 = "form_submit full_form (blank_app, sample_world)"
  have h1: "?s1 = (fst ?s1, snd ?s1)" by simp
  have h2: "?s2 = (fst ?s2, snd ?s2)" by simp
  have h3: "?s3 = (fst ?s3, snd ?s3)" by simp
  have h4: "?s4 = (fst ?s4, snd ?s4)" by simp
  note c = createTask_sends_text_unchecked [OF h1 h2 h3 h4]
  have e: "title_n (newTask blank_app) = []"
    by (simp add: blank_app_def)
  have nf: "next_fault (snd ?s2) = None"
    by code_simp
  have f: "\<not> failed (fst (db_insert ''tasks'' [new_row blank_app (fst ?s1) (fst ?s2)] (snd ?s2)))"
    by (simp add: failed_insert nf)
  have t: "table (snd ?s3) = table sample_world @
        [\<lparr>id_t = serial sample_world, title = title_n (newTask blank_app),
          description = description_n (newTask blank_app),
          image_url = fst ?s1, video_url = fst ?s2\<rparr>]"
    using c [THEN conjunct2, THEN conjunct1] f by (elim impE)
  have a: "fst ?s4 = blank_app \<and> snd ?s4 = sample_world"
    using c [THEN conjunct2, THEN conjunct2, THEN conjunct1] e by (elim impE) (rule disjI1)
  show ?thesis
    by (intro conjI) (rule e f t a [THEN conjunct1] a [THEN conjunct2])+
qed

text \<open>
  C5, as the claim states it, fails: \<^verbatim>\<open>createTask\<close>, run on a state whose title is
  empty, rejects nothing and the row with the empty title is appended to the table.
\<close>

theorem createTask_empty_title_counterexample:
  "title_n (newTask blank_app) = []
   \<and> table (snd (createTask (blank_app, sample_world)))
     = table sample_world @
         [\<lparr>id_t = 4, title = [], description = ''daily'',
           image_url = Some ''https://cdn.example/notes-images/images/1712-cat.png'',
           video_url = Some ''https://cdn.example/notes-images/videos/1712-walk.mp4''\<rparr>]"
proof -
  have a: "title_n (newTask blank_app) = []"
    by (simp add: blank_app_def)
  have b: "table (snd (createTask (blank_app, sample_world)))
     = table sample_world @
         [\<lparr>id_t = 4, title = [], description = ''daily'',
           image_url = Some ''https://cdn.example/notes-images/images/1712-cat.png'',
           video_url = Some ''https://cdn.example/notes-images/videos/1712-walk.mp4''\<rparr>]"
    by code_simp
  show ?thesis
    by (intro conjI) (rule a b)+
qed

text \<open>
  C6. \<^verbatim>\<open>createTask\<close> always issues its insert, with the title and description of the
  form and the references the two upload steps left, and when the insert succeeds the
  row is appended. With no file chosen for a category the step makes no request and the
  reference is \<^verbatim>\<open>null\<close>; with a file chosen, the reference is \<^verbatim>\<open>null\<close> when the
  upload fails or no public location is resolved.
\<close>

theorem createTask_attachments_degrade:
  assumes "image_step app w = (imageUrl, w1)" and "video_step app w1 = (videoUrl, w2)"
    and "createTask (app, w) = (app', w')"
  shows "Insert ''tasks'' [new_row app imageUrl videoUrl] \<in> set (issued w w')
    \<and> (\<not> failed (fst (db_insert ''tasks'' [new_row app imageUrl videoUrl] w2)) \<longrightarrow>
          table w' = table w @ [created app imageUrl videoUrl w])
    \<and> (taskImage app = None \<longrightarrow> imageUrl = None \<and> issued w w1 = [])
    \<and> (taskVideo app = None \<longrightarrow> videoUrl = None \<and> issued w1 w2 = [])
    \<and> (\<forall>f. taskImage app = Some f \<and>
            failed (fst (storage_upload ''notes-images'' (upload_path ''images'' f w) f True w))
          \<longrightarrow> imageUrl = None)
    \<and> (\<forall>f. taskVideo app = Some f \<and>
            failed (fst (storage_upload ''notes-images'' (upload_path ''videos'' f w1) f True w1))
          \<longrightarrow> videoUrl = None)
    \<and> (\<forall>f. taskImage app = Some f \<and>
            resolved (publicUrlOf w ''notes-images'' (upload_path ''images'' f w)) = None
          \<longrightarrow> imageUrl = None)
    \<and> (\<forall>f. taskVideo app = Some f \<and>
            resolved (publicUrlOf w1 ''notes-images'' (upload_path ''videos'' f w1)) = None
          \<longrightarrow> videoUrl = None)"
proof -
  have c1: "Insert ''tasks'' [new_row app imageUrl videoUrl] \<in> set (issued w w')"
    using createTask_issued [OF assms(1,2)] assms(3) by simp
  have c2: "\<not> failed (fst (db_insert ''tasks'' [new_row app imageUrl videoUrl] w2)) \<longrightarrow>
          table w' = table w @ [created app imageUrl videoUrl w]"
    using createTask_table [OF assms(1,2)] assms(3) by (simp add: failed_insert)
  have c3: "taskImage app = None \<longrightarrow> imageUrl = None \<and> issued w w1 = []"
    using image_step_result [of app w] image_step_issued [of w app] assms(1) by simp
  have c4: "taskVideo app = None \<longrightarrow> videoUrl = None \<and> issued w1 w2 = []"
    using video_step_result [of app w1] video_step_issued [of w1 app] assms(2) by simp
  have c5: "\<forall>f. taskImage app = Some f \<and>
            failed (fst (storage_upload ''notes-images'' (upload_path ''images'' f w) f True w))
          \<longrightarrow> imageUrl = None"
    using image_step_result [of app w] assms(1) by (simp add: failed_upload)
  have c6: "\<forall>f. taskVideo app = Some f \<and>
            failed (fst (storage_upload ''notes-images'' (upload_path ''videos'' f w1) f True w1))
          \<longrightarrow> videoUrl = None"
    using video_step_result [of app w1] assms(2) by (simp add: failed_upload)
  have c7: "\<forall>f. taskImage app = Some f \<and>
            resolved (publicUrlOf w ''notes-images'' (upload_path ''images'' f w)) = None
          \<longrightarrow> imageUrl = None"
    using image_step_result [of app w] assms(1) by auto
  have c8: "\<forall>f. taskVideo app = Some f \<and>
            resolved (publicUrlOf w1 ''notes-images'' (upload_path ''videos'' f w1)) = None
          \<longrightarrow> videoUrl = None"
    using video_step_result [of app w1] assms(2) by auto
  show ?thesis
    by (intro conjI) (rule c1 c2 c3 c4 c5 c6 c7 c8)+
qed

theorem createTask_attachments_degrade_witness:
  "taskImage photo_app = Some sample_photo
   \<and> failed (fst (storage_upload ''notes-images''
                   (upload_path ''images'' sample_photo flaky_world) sample_photo True flaky_world))
   \<and> taskVideo photo_app = None
   \<and> fst (image_step photo_app flaky_world) = None
   \<and> fst (video_step photo_app (snd (image_step photo_app flaky_world))) = None
   \<and> Insert ''tasks'' [new_row photo_app None None]
        \<in> set (issued flaky_world (snd (createTask (photo_app, flaky_world))))
   \<and> table (snd (createTask (photo_app, flaky_world)))
        = table flaky_world @ [created photo_app None None flaky_world]"
proof -
  let ?s1 = "image_step photo_app flaky_world"
  let ?s2 = "video_step photo_app (snd ?s1)"
  let ?s3 = "createTask (photo_app, flaky_world)"
  have h1: "?s1 = (fst ?s1, snd ?s1)" by simp
  have h2: "?s2 = (fst ?s2, snd ?s2)" by simp
  have h3: "?s3 = (fst ?s3, snd ?s3)" by simp
  note c = createTask_attachments_degrade [OF h1 h2 h3]
  have p: "taskImage photo_app = Some sample_photo"
    by (simp add: photo_app_def)
  have v: "taskVideo photo_app = None"
    by (simp add: photo_app_def sample_app_def)
  have f: "failed (fst (storage_upload ''notes-images''
                   (upload_path ''images'' sample_photo flaky_world) sample_photo True flaky_world))"
    by (simp add: failed_upload next_fault_def flaky_world_def)
  have i: "fst ?s1 = None"
    using c p f by blast
  have j: "fst ?s2 = None"
    using c v by blast
  have nf: "next_fault (snd ?s2) = None"
    by code_simp
  have k: "Insert ''tasks'' [new_row photo_app None None] \<in> set (issued flaky_world (snd ?s3))"
    using c by (simp add: i j)
  have t: "table (snd ?s3) = table flaky_world @ [created photo_app None None flaky_world]"
    using c by (simp add: i j failed_insert nf)
  show ?thesis
    by (intro conjI) (rule p f v i j k t)+
qed

section \<open>The keys stay in order\<close>

text \<open>
  \<open>keys_ok\<close> holds when the table and the view are empty, and every handler keeps it:
  the properties above that assume it speak about every state the application reaches
  from there.
\<close>

lemma fetchTasks_serial: "serial (snd (fetchTasks (app, w))) = serial w"
  by (simp add: fetchTasks_world issue_keeps console_keeps split: reply.splits)

lemma fetchTasks_tasks:
  "tasks (fst (fetchTasks (app, w))) = tasks app \<or>
   tasks (fst (fetchTasks (app, w))) = order_rows ''id'' False (table w)"
  by (simp add: fetchTasks_app select_reply split: option.splits fault.splits)

lemma set_order_rows: "set (order_rows c asc rs) = set rs"
  by (simp add: order_rows_def set_arrange)

lemma keys_ok_iff:
  "keys_ok (app, w) \<longleftrightarrow>
     distinct (map id_t (table w)) \<and> (\<forall>r\<in>set (table w). id_t r < serial w) \<and>
     (\<forall>t\<in>set (tasks app). id_t t < serial w)"
  by (simp add: keys_ok_def list_all_iff)

lemma keys_ok_fetchTasks:
  assumes "keys_ok (app, w)"
  shows "keys_ok (fetchTasks (app, w))"
proof -
  obtain app' w' where s: "fetchTasks (app, w) = (app', w')"
    by (cases "fetchTasks (app, w)")
  have t: "table w' = table w" "serial w' = serial w"
    using fetchTasks_table [of app w] fetchTasks_serial [of app w] s by simp_all
  have v: "set (tasks app') = set (tasks app) \<or> set (tasks app') = set (table w)"
    using fetchTasks_tasks [of app w] s by (auto simp: set_order_rows)
  show ?thesis
    using assms v unfolding s keys_ok_iff t by auto
qed

lemma keys_ok_table:
  assumes "keys_ok (app, w)" and "serial w' = serial w"
    and "map id_t (table w') = map id_t (table w)"
  shows "keys_ok (app, w')"
proof -
  have "set (map id_t (table w')) = set (map id_t (table w))"
    by (simp only: assms(3))
  then have e: "id_t ` set (table w') = id_t ` set (table w)"
    by simp
  have "\<forall>k\<in>id_t ` set (table w). k < serial w"
    using assms(1) by (simp add: keys_ok_iff)
  then have "\<forall>k\<in>id_t ` set (table w'). k < serial w"
    by (simp only: e)
  then have b: "\<forall>r\<in>set (table w'). id_t r < serial w'"
    by (simp add: assms(2))
  have d: "distinct (map id_t (table w'))"
    using assms(1) by (simp add: keys_ok_iff assms(3))
  have v: "\<forall>t\<in>set (tasks app). id_t t < serial w'"
    using assms(1) by (simp add: keys_ok_iff assms(2))
  from d b v show ?thesis
    by (simp add: keys_ok_iff)
qed

lemma map_id_redescribed: "map id_t (redescribed i d rs) = map id_t rs"
  by (induction rs) (simp_all add: redescribed_def)

lemma updateTask_serial: "serial (snd (updateTask i (app, w))) = serial w"
proof (cases "next_fault w")
  case None
  then show ?thesis
    by (simp add: updateTask_ok fetchTasks_serial console_keeps issue_keeps)
next
  case (Some f)
  then show ?thesis
    by (cases f) (simp_all add: updateTask_rejected updateTask_thrown console_keeps issue_keeps)
qed

lemma keys_ok_updateTask:
  assumes "keys_ok (app, w)"
  shows "keys_ok (updateTask i (app, w))"
proof (cases "next_fault w")
  case None
  let ?w1 = "console_log ''Task updated''
               ((snd (issue (update_request (newDescription app) i) w))
                  \<lparr>table := redescribed i (newDescription app) (table w)\<rparr>)"
  have k0: "keys_ok (app, ?w1)"
    by (rule keys_ok_table [OF assms]) (simp_all add: console_keeps issue_keeps map_id_redescribed)
  then have "keys_ok (app\<lparr>newDescription := []\<rparr>, ?w1)"
    by (simp add: keys_ok_iff)
  then show ?thesis
    unfolding updateTask_ok [OF None] by (rule keys_ok_fetchTasks)
next
  case (Some f)
  show ?thesis
  proof (cases f)
    case (Rejects m)
    have nf: "next_fault w = Some (Rejects m)"
      using Some Rejects by simp
    show ?thesis
      unfolding updateTask_rejected [OF nf]
      by (rule keys_ok_table [OF assms]) (simp_all add: console_keeps issue_keeps)
  next
    case (Throws m)
    have nf: "next_fault w = Some (Throws m)"
      using Some Throws by simp
    show ?thesis
      unfolding updateTask_thrown [OF nf]
      by (rule keys_ok_table [OF assms]) (simp_all add: console_keeps issue_keeps)
  qed
qed

lemma keys_ok_createTask:
  assumes "keys_ok (app, w)"
  shows "keys_ok (createTask (app, w))"
proof -
  obtain iu w1 where s1: "image_step app w = (iu, w1)"
    by (cases "image_step app w")
  obtain vu w2 where s2: "video_step app w1 = (vu, w2)"
    by (cases "video_step app w1")
  have t: "table w2 = table w" "serial w2 = serial w"
    using image_step_keeps [of app w] video_step_keeps [of app w1] s1 s2 by simp_all
  let ?rq = "Insert ''tasks'' [new_row app iu vu]"
  show ?thesis
  proof (cases "next_fault w2")
    case None
    let ?w3 = "console_log ''Task added successfully!''
                 ((snd (issue ?rq w2))
                    \<lparr>table := table w2 @ [created app iu vu w2], serial := serial w2 + 1\<rparr>)"
    have "keys_ok (cleared app, ?w3)"
      using assms unfolding keys_ok_iff
      by (auto simp: console_keeps t created_def cleared_def)
    then have "keys_ok (fetchTasks (cleared app, ?w3))"
      by (rule keys_ok_fetchTasks)
    then show ?thesis
      by (simp add: createTask_eq [OF s1 s2] None)
  next
    case (Some f)
    have a: "keys_ok (app, snd (issue ?rq w2))"
      by (rule keys_ok_table [OF assms]) (simp_all add: issue_keeps t)
    have b: "keys_ok (app, console_error m (snd (issue ?rq w2)))" for m
      by (rule keys_ok_table [OF assms]) (simp_all add: console_keeps issue_keeps t)
    show ?thesis
      using a b by (cases f) (simp_all add: createTask_eq [OF s1 s2] Some)
  qed
qed

lemma keys_ok_form_submit:
  assumes "keys_ok (app, w)"
  shows "keys_ok (form_submit frm (app, w))"
  using assms keys_ok_createTask [OF assms] by (simp add: form_submit_def)

lemma delete_reply:
  "fst (db_delete_eq ''tasks'' ''id'' (Num i) w) =
     (case next_fault w of
        None \<Rightarrow> Data ()
      | Some (Rejects e) \<Rightarrow> Error e
      | Some (Throws e) \<Rightarrow> Threw e)"
  using issue_fst [of "DeleteEq ''tasks'' ''id'' (Num i)" w]
  by (auto simp: db_delete_eq_def columns_def split: prod.splits option.splits fault.splits)

lemma delete_world:
  "snd (db_delete_eq ''tasks'' ''id'' (Num i) w) =
     (if next_fault w = None
      then (snd (issue (DeleteEq ''tasks'' ''id'' (Num i)) w))
             \<lparr>table := filter (\<lambda>r. id_t r \<noteq> i) (table w)\<rparr>
      else snd (issue (DeleteEq ''tasks'' ''id'' (Num i)) w))"
  using issue_fst [of "DeleteEq ''tasks'' ''id'' (Num i)" w]
        issue_keeps(1) [of "DeleteEq ''tasks'' ''id'' (Num i)" w]
  by (auto simp: db_delete_eq_def columns_def col_val_def split: prod.splits option.splits fault.splits)

lemma deleteTask_eq:
  "deleteTask confirmed i (app, w) =
     (if \<not> confirmed then (app, w)
      else case next_fault w of
        Some (Throws e) \<Rightarrow> (app, snd (issue (DeleteEq ''tasks'' ''id'' (Num i)) w))
      | Some (Rejects msg) \<Rightarrow>
          (app, console_error (''Delete error: '' @ msg)
                  (snd (issue (DeleteEq ''tasks'' ''id'' (Num i)) w)))
      | None \<Rightarrow>
          fetchTasks (app, console_log ''Task deleted''
            ((snd (issue (DeleteEq ''tasks'' ''id'' (Num i)) w))
               \<lparr>table := filter (\<lambda>r. id_t r \<noteq> i) (table w)\<rparr>)))"
proof -
  have e: "db_delete_eq ''tasks'' ''id'' (Num i) w
             = (fst (db_delete_eq ''tasks'' ''id'' (Num i) w),
                snd (db_delete_eq ''tasks'' ''id'' (Num i) w))"
    by simp
  show ?thesis
  proof (cases "next_fault w")
    case None
    show ?thesis
      by (simp only: deleteTask_def prod.case, subst e)
         (simp add: delete_reply delete_world None)
  next
    case (Some f)
    show ?thesis
      by (cases f; simp only: deleteTask_def prod.case; subst e)
         (simp_all add: delete_reply delete_world Some)
  qed
qed

lemma keys_ok_deleteTask:
  assumes "keys_ok (app, w)"
  shows "keys_ok (deleteTask confirmed i (app, w))"
proof (cases "confirmed")
  case False
  then show ?thesis using assms by (simp add: deleteTask_eq)
next
  case True
  let ?rq = "DeleteEq ''tasks'' ''id'' (Num i)"
  show ?thesis
  proof (cases "next_fault w")
    case None
    let ?w1 = "console_log ''Task deleted''
                 ((snd (issue ?rq w))\<lparr>table := filter (\<lambda>r. id_t r \<noteq> i) (table w)\<rparr>)"
    have "keys_ok (app, ?w1)"
      using assms unfolding keys_ok_iff
      by (auto simp: console_keeps issue_keeps distinct_map_filter)
    then have "keys_ok (fetchTasks (app, ?w1))"
      by (rule keys_ok_fetchTasks)
    then show ?thesis
      by (simp add: deleteTask_eq True None)
  next
    case (Some f)
    have a: "keys_ok (app, snd (issue ?rq w))"
      by (rule keys_ok_table [OF assms]) (simp_all add: issue_keeps)
    have b: "keys_ok (app, console_error m (snd (issue ?rq w)))" for m
      by (rule keys_ok_table [OF assms]) (simp_all add: console_keeps issue_keeps)
    show ?thesis
      using a b by (cases f) (simp_all add: deleteTask_eq True Some)
  qed
qed

lemma keys_ok_start:
  assumes "table w = []" and "tasks app = []"
  shows "keys_ok (app, w)"
  using assms by (simp add: keys_ok_def)

text \<open>
  The safe range is kept as well: a refresh brings only ids of the table into the view,
  and a new row gets the next key of the store, so the ids stay in the safe range for as
  long as that key is.
\<close>

lemma safe_ids_fetchTasks:
  assumes "safe_ids (table w)" and "safe_ids (tasks app)"
  shows "safe_ids (tasks (fst (fetchTasks (app, w))))"
  using fetchTasks_tasks [of app w] assms by (auto simp: safe_ids_order_rows)

lemma safe_ids_createTask:
  assumes "safe_ids (table w)" and "safe_integer (serial w)"
  shows "safe_ids (table (snd (createTask (app, w))))"
proof -
  obtain iu w1 where s1: "image_step app w = (iu, w1)"
    by (cases "image_step app w")
  obtain vu w2 where s2: "video_step app w1 = (vu, w2)"
    by (cases "video_step app w1")
  show ?thesis
    using assms by (simp add: createTask_table [OF s1 s2] safe_ids_def created_def)
qed

lemma safe_ids_updateTask:
  assumes "safe_ids (table w)"
  shows "safe_ids (table (snd (updateTask i (app, w))))"
proof -
  have "table (snd (updateTask i (app, w))) =
          (if next_fault w = None then redescribed i (newDescription app) (table w)
           else table w)"
    by (rule updateTask_table [of i app w "fst (updateTask i (app, w))"]) simp
  then show ?thesis
    using assms by (simp add: safe_ids_redescribed)
qed

end
